theory Spec2Isabelle
  imports Main "HOL-Library.Word" "HOL-Library.Monad_Syntax"
begin

unbundle bit_operations_syntax

section \<open>Data model of \<^verbatim>\<open>main.cpp\<close>\<close>

text \<open>
  \<^verbatim>\<open>uint32_t\<close> is a 32-bit word: \<open>+\<close> wraps, and a \<^verbatim>\<open>size_t\<close> stored into a
  \<^verbatim>\<open>uint32_t\<close> keeps its low 32 bits (\<open>of_nat\<close>). A \<^verbatim>\<open>float\<close> is only ever copied
  and written by the program, never computed with, so it is modelled by its 32-bit
  pattern; \<open>0.0f\<close> is the pattern \<open>0\<close>.
\<close>

type_synonym u32 = "32 word"
type_synonym f32 = "32 word"
type_synonym byte = "8 word"

text \<open>\<^verbatim>\<open>glm::vec3\<close>, \<^verbatim>\<open>aiVector3D\<close> and \<^verbatim>\<open>aiColor3D\<close>: three floats
  (\<^verbatim>\<open>x y z\<close>, also named \<^verbatim>\<open>r g b\<close>).\<close>

datatype vec3 = Vec3 (vec_x: f32) (vec_y: f32) (vec_z: f32)

record Mesh =
  color :: vec3
  vertex_base :: u32
  vertex_count :: u32
  index_base :: u32
  index_count :: u32

record Vertex =
  position :: vec3
  normal :: vec3

subsection \<open>The imported scene\<close>

text \<open>
  The part of Assimp's \<^verbatim>\<open>aiScene\<close> that the program reads. A C array with its
  length field is a list: \<^verbatim>\<open>mNumIndices\<close>, \<^verbatim>\<open>mNumVertices\<close>, \<^verbatim>\<open>mNumFaces\<close>,
  \<^verbatim>\<open>mNumMeshes\<close> and \<^verbatim>\<open>mNumMaterials\<close> are the lengths. The program takes the
  addresses of \<^verbatim>\<open>mNormals[vertex_num]\<close> and of the texture coordinate and never
  reads them, so these arrays are not part of the model.
  A material is its property table restricted to the one key that is queried,
  \<^verbatim>\<open>AI_MATKEY_COLOR_DIFFUSE\<close>.
\<close>

type_synonym aiFace = "u32 list"

record aiMesh =
  mVertices :: "vec3 list"
  mFaces :: "aiFace list"
  mMaterialIndex :: u32

record aiMaterial =
  color_diffuse :: "vec3 option"

record aiScene =
  mMeshes :: "aiMesh list"
  mMaterials :: "aiMaterial list"

text \<open>The counts are \<^verbatim>\<open>unsigned int\<close> fields, so a scene the importer can hand
  over has fewer than \<open>2 ^ 32\<close> meshes, and per mesh fewer than \<open>2 ^ 32\<close> vertices
  and faces. Their sums over the scene are not bounded by any type.\<close>

text \<open>\<^verbatim>\<open>aiMaterial::Get(AI_MATKEY_COLOR_DIFFUSE, ai_color)\<close>: the colour stored under
  the key, and the caller's value where the key is absent.\<close>

definition Get_color_diffuse :: "aiMaterial \<Rightarrow> vec3 \<Rightarrow> vec3" where
  "Get_color_diffuse mat ai_color =
     (case color_diffuse mat of None \<Rightarrow> ai_color | Some c \<Rightarrow> c)"

section \<open>The flattener (the mesh loop of \<^verbatim>\<open>main\<close>)\<close>

record buffers =
  meshes :: "Mesh list"
  vertexes :: "Vertex list"
  indexes :: "u32 list"

text \<open>Reading \<^verbatim>\<open>mMaterials[mMaterialIndex]\<close> past the end of the table is
  undefined behaviour; the model makes it a fault that ends the run.\<close>

datatype fault = MaterialIndexOutOfRange

text \<open>\<^verbatim>\<open>meshes.resize(n)\<close> value-initialises each record: every field is zero.\<close>

definition zero_Mesh :: Mesh where
  "zero_Mesh = \<lparr>color = Vec3 0 0 0, vertex_base = 0, vertex_count = 0,
                index_base = 0, index_count = 0\<rparr>"

text \<open>
  The vertex loop. \<^verbatim>\<open>Vertex vert;\<close> is declared in the loop body: every iteration
  has a fresh object, default-initialised, and what that leaves in it is decided by
  \<^verbatim>\<open>glm::vec3\<close>'s default constructor, which is not part of the program (a
  defaulted constructor leaves the memory as it was). The parameter \<open>vert\<close> gives,
  for each position \<open>n\<close> of the vertex pool, the contents of the object of the
  iteration that pushes entry \<open>n\<close>, before the loop body assigns to it. The loop
  assigns the three position components and pushes the record.
\<close>

fun load_vertexes :: "(nat \<Rightarrow> Vertex) \<Rightarrow> vec3 list \<Rightarrow> Vertex list \<Rightarrow> Vertex list" where
  "load_vertexes vert [] vs = vs"
| "load_vertexes vert (p_position # ps) vs =
     load_vertexes vert ps
       (vs @ [(vert (length vs))
                \<lparr>position := Vec3 (vec_x p_position) (vec_y p_position) (vec_z p_position)\<rparr>])"

text \<open>The face loop; \<open>ib\<close> is the local \<^verbatim>\<open>index_base\<close> of line 171.\<close>

definition add_index_count :: "nat \<Rightarrow> Mesh list \<Rightarrow> Mesh list" where
  "add_index_count mesh_num ms =
     ms[mesh_num := (ms ! mesh_num)\<lparr>index_count := index_count (ms ! mesh_num) + 3\<rparr>]"

fun load_faces :: "u32 \<Rightarrow> nat \<Rightarrow> aiFace list \<Rightarrow> buffers \<Rightarrow> buffers" where
  "load_faces ib mesh_num [] st = st"
| "load_faces ib mesh_num (ai_face # fs) st =
     (if length ai_face \<noteq> 3 then load_faces ib mesh_num fs st
      else load_faces ib mesh_num fs
        (st\<lparr>indexes := indexes st @ [ib + ai_face ! 0, ib + ai_face ! 1, ib + ai_face ! 2],
            meshes := add_index_count mesh_num (meshes st)\<rparr>))"

text \<open>One iteration of the mesh loop.\<close>

definition load_mesh :: "(nat \<Rightarrow> Vertex) \<Rightarrow> aiScene \<Rightarrow> nat \<Rightarrow> aiMesh \<Rightarrow> buffers \<Rightarrow> fault + buffers" where
  "load_mesh vert sc mesh_num p_ai_mesh st =
     (let m0 = (meshes st ! mesh_num)
                \<lparr>vertex_base := of_nat (length (vertexes st)),
                 index_base := of_nat (length (indexes st)),
                 vertex_count := of_nat (length (mVertices p_ai_mesh))\<rparr>
      in if length (mMaterials sc) \<le> unat (mMaterialIndex p_ai_mesh)
         then Inl MaterialIndexOutOfRange
         else
           let ai_color = Get_color_diffuse
                 (mMaterials sc ! unat (mMaterialIndex p_ai_mesh)) (Vec3 0 0 0);
               m1 = m0\<lparr>color := Vec3 (vec_x ai_color) (vec_y ai_color) (vec_z ai_color)\<rparr>;
               st1 = st\<lparr>meshes := (meshes st)[mesh_num := m1],
                        vertexes := load_vertexes vert (mVertices p_ai_mesh) (vertexes st)\<rparr>;
               ib = (of_nat (length (indexes st1)) :: u32)
           in Inr (load_faces ib mesh_num (mFaces p_ai_mesh) st1))"

fun load_meshes :: "(nat \<Rightarrow> Vertex) \<Rightarrow> aiScene \<Rightarrow> nat \<Rightarrow> aiMesh list \<Rightarrow> buffers \<Rightarrow> fault + buffers" where
  "load_meshes vert sc mesh_num [] st = Inr st"
| "load_meshes vert sc mesh_num (m # ms) st =
     (case load_mesh vert sc mesh_num m st of
        Inl e \<Rightarrow> Inl e
      | Inr st' \<Rightarrow> load_meshes vert sc (Suc mesh_num) ms st')"

definition flatten :: "(nat \<Rightarrow> Vertex) \<Rightarrow> aiScene \<Rightarrow> fault + buffers" where
  "flatten vert sc =
     load_meshes vert sc 0 (mMeshes sc)
       \<lparr>meshes = replicate (length (mMeshes sc)) zero_Mesh, vertexes = [], indexes = []\<rparr>"

section \<open>The binary writer\<close>

text \<open>
  \<^verbatim>\<open>output_file.write((char*)&ui, sizeof(uint32_t))\<close> appends the four bytes of the
  object in the host's byte order; \<open>big\<close> says whether the host is big-endian.
  The stream is the list of bytes written so far.
\<close>

definition object_bytes :: "bool \<Rightarrow> 32 word \<Rightarrow> byte list" where
  "object_bytes big w =
     (let le = [ucast w, ucast (drop_bit 8 w), ucast (drop_bit 16 w), ucast (drop_bit 24 w)]
      in if big then rev le else le)"

definition write_to_file_u32 :: "bool \<Rightarrow> byte list \<Rightarrow> u32 \<Rightarrow> byte list" where
  "write_to_file_u32 big output_file ui = output_file @ object_bytes big ui"

definition write_to_file_vec3 :: "bool \<Rightarrow> byte list \<Rightarrow> vec3 \<Rightarrow> byte list" where
  "write_to_file_vec3 big output_file vector =
     (let o1 = output_file @ object_bytes big (vec_x vector);
          o2 = o1 @ object_bytes big (vec_y vector)
      in o2 @ object_bytes big (vec_z vector))"

fun save_meshes :: "bool \<Rightarrow> Mesh list \<Rightarrow> byte list \<Rightarrow> byte list" where
  "save_meshes big [] output_file = output_file"
| "save_meshes big (mesh # ms) output_file =
     (let o1 = write_to_file_vec3 big output_file (color mesh);
          o2 = write_to_file_u32 big o1 (vertex_base mesh);
          o3 = write_to_file_u32 big o2 (vertex_count mesh);
          o4 = write_to_file_u32 big o3 (index_base mesh);
          o5 = write_to_file_u32 big o4 (index_count mesh)
      in save_meshes big ms o5)"

fun save_vertexes :: "bool \<Rightarrow> Vertex list \<Rightarrow> byte list \<Rightarrow> byte list" where
  "save_vertexes big [] output_file = output_file"
| "save_vertexes big (vertex # vs) output_file =
     (let o1 = write_to_file_vec3 big output_file (position vertex);
          o2 = write_to_file_vec3 big o1 (normal vertex)
      in save_vertexes big vs o2)"

fun save_indexes :: "bool \<Rightarrow> u32 list \<Rightarrow> byte list \<Rightarrow> byte list" where
  "save_indexes big [] output_file = output_file"
| "save_indexes big (index # is) output_file =
     save_indexes big is (write_to_file_u32 big output_file index)"

text \<open>The three save blocks of \<^verbatim>\<open>main\<close>; each count is the container's
  \<^verbatim>\<open>size()\<close> stored into a \<^verbatim>\<open>uint32_t\<close>.\<close>

definition save_file :: "bool \<Rightarrow> buffers \<Rightarrow> byte list \<Rightarrow> byte list" where
  "save_file big b output_file =
     (let meshes_count = (of_nat (length (meshes b)) :: u32);
          o1 = write_to_file_u32 big output_file meshes_count;
          o2 = save_meshes big (meshes b) o1;
          vertex_count = (of_nat (length (vertexes b)) :: u32);
          o3 = write_to_file_u32 big o2 vertex_count;
          o4 = save_vertexes big (vertexes b) o3;
          index_count = (of_nat (length (indexes b)) :: u32);
          o5 = write_to_file_u32 big o4 index_count
      in save_indexes big (indexes b) o5)"

section \<open>The program\<close>

text \<open>
  \<^verbatim>\<open>main\<close> after the command line has been parsed: \<open>variables_map\<close> holds what
  \<^verbatim>\<open>vm.count\<close> and \<^verbatim>\<open>vm[...]\<close> answer for the three options. The import
  service is two parameters: \<open>ReadFile\<close> (\<open>None\<close> is the null scene) and the text
  that \<^verbatim>\<open>aiGetErrorString()\<close> returns. Standard output is the sequence of
  items inserted into \<^verbatim>\<open>std::cout\<close>; numbers are kept as values, not formatted.
  \<open>opened\<close> is the path given to \<^verbatim>\<open>output_file.open\<close>, \<open>imported\<close> the path given
  to the import service, and \<open>written\<close> the bytes handed to the stream; whether the
  stream took them (the file may have failed to open) is outside the model. A command
  line that boost rejects raises an exception before this point.
\<close>

record variables_map =
  vm_help :: bool
  vm_source :: "string option"
  vm_out :: "string option"

datatype out_item = Text string | Size nat | U32 u32 | F32 f32 | Usage | Endl

record run =
  stdout :: "out_item list"
  opened :: "string option"
  imported :: "string option"
  written :: "byte list"
  exit_status :: int

fun print_meshes :: "Mesh list \<Rightarrow> out_item list \<Rightarrow> out_item list" where
  "print_meshes [] cout = cout"
| "print_meshes (mesh # ms) cout =
     print_meshes ms
       (cout @
        [Text ''Color: r: '', F32 (vec_x (color mesh)), Text '', g: '', F32 (vec_y (color mesh)),
         Text '', b:'', F32 (vec_z (color mesh)), Endl,
         Text ''Vertex base: '', U32 (vertex_base mesh), Endl,
         Text ''Vertex count: '', U32 (vertex_count mesh), Endl,
         Text ''Index base: '', U32 (index_base mesh), Endl,
         Text ''Index count: '', U32 (index_count mesh), Endl,
         Endl])"

definition print_info :: "buffers \<Rightarrow> out_item list" where
  "print_info b =
     print_meshes (meshes b)
       [Text ''Vertex count: '', Size (length (vertexes b)), Endl,
        Text ''Index count: '', Size (length (indexes b)), Endl,
        Text ''Meshes: '', Size (length (meshes b)), Endl]"

definition source_not_set :: out_item where
  "source_not_set = Text (''Source was not set.'' @ [CHR 0x0A])"

definition output_not_set :: out_item where
  "output_not_set = Text (''Output was not set.'' @ [CHR 0x0A])"

definition main_prog ::
  "bool \<Rightarrow> (nat \<Rightarrow> Vertex) \<Rightarrow> (string \<Rightarrow> aiScene option) \<Rightarrow> string \<Rightarrow> variables_map \<Rightarrow> fault + run" where
  "main_prog big vert ReadFile aiGetErrorString vm =
     (if vm_help vm
      then Inr \<lparr>stdout = [Usage, Text [CHR 0x0A]], opened = None, imported = None,
                written = [], exit_status = 0\<rparr>
      else
        let c1 = (case vm_source vm of Some _ \<Rightarrow> [] | None \<Rightarrow> [source_not_set]);
            c2 = c1 @ (case vm_out vm of Some _ \<Rightarrow> [] | None \<Rightarrow> [output_not_set])
        in case (vm_source vm, vm_out vm) of
             (Some file_path, Some _) \<Rightarrow>
               (case ReadFile file_path of
                  None \<Rightarrow>
                    Inr \<lparr>stdout = c2 @ [Text ''Failed to load model. Assimp error: '',
                                        Text aiGetErrorString, Endl],
                         opened = vm_out vm, imported = Some file_path,
                         written = [], exit_status = 0\<rparr>
                | Some p_scene \<Rightarrow>
                    (case flatten vert p_scene of
                       Inl e \<Rightarrow> Inl e
                     | Inr b \<Rightarrow>
                         Inr \<lparr>stdout = c2 @ print_info b,
                              opened = vm_out vm, imported = Some file_path,
                              written = save_file big b [], exit_status = 0\<rparr>))
           | _ \<Rightarrow>
               Inr \<lparr>stdout = c2, opened = vm_out vm, imported = None,
                    written = [], exit_status = 0\<rparr>)"

section \<open>A reader for the documented layout\<close>

text \<open>
  The program has no reader. This one is written from the layout table of the
  specification (binary output format), field by field: a count, then that many
  records, three times over. It is the other side of the round trip of the writer.
\<close>

definition u32_of_bytes :: "bool \<Rightarrow> byte list \<Rightarrow> 32 word" where
  "u32_of_bytes big bs =
     (let le = (if big then rev bs else bs)
      in ucast (le ! 0) OR push_bit 8 (ucast (le ! 1)) OR
         push_bit 16 (ucast (le ! 2)) OR push_bit 24 (ucast (le ! 3)))"

definition read_u32 :: "bool \<Rightarrow> byte list \<Rightarrow> (32 word \<times> byte list) option" where
  "read_u32 big bs =
     (if length bs < 4 then None else Some (u32_of_bytes big (take 4 bs), drop 4 bs))"

definition read_vec3 :: "bool \<Rightarrow> byte list \<Rightarrow> (vec3 \<times> byte list) option" where
  "read_vec3 big bs =
     do { (a, bs1) \<leftarrow> read_u32 big bs;
          (b, bs2) \<leftarrow> read_u32 big bs1;
          (c, bs3) \<leftarrow> read_u32 big bs2;
          Some (Vec3 a b c, bs3) }"

definition read_mesh :: "bool \<Rightarrow> byte list \<Rightarrow> (Mesh \<times> byte list) option" where
  "read_mesh big bs =
     do { (c, bs1) \<leftarrow> read_vec3 big bs;
          (vb, bs2) \<leftarrow> read_u32 big bs1;
          (vc, bs3) \<leftarrow> read_u32 big bs2;
          (ib, bs4) \<leftarrow> read_u32 big bs3;
          (ic, bs5) \<leftarrow> read_u32 big bs4;
          Some (\<lparr>color = c, vertex_base = vb, vertex_count = vc,
                 index_base = ib, index_count = ic\<rparr>, bs5) }"

definition read_vertex :: "bool \<Rightarrow> byte list \<Rightarrow> (Vertex \<times> byte list) option" where
  "read_vertex big bs =
     do { (p, bs1) \<leftarrow> read_vec3 big bs;
          (n, bs2) \<leftarrow> read_vec3 big bs1;
          Some (\<lparr>position = p, normal = n\<rparr>, bs2) }"

fun read_many ::
  "(byte list \<Rightarrow> ('a \<times> byte list) option) \<Rightarrow> nat \<Rightarrow> byte list \<Rightarrow> ('a list \<times> byte list) option" where
  "read_many rd 0 bs = Some ([], bs)"
| "read_many rd (Suc n) bs =
     do { (x, bs1) \<leftarrow> rd bs;
          (xs, bs2) \<leftarrow> read_many rd n bs1;
          Some (x # xs, bs2) }"

definition read_file :: "bool \<Rightarrow> byte list \<Rightarrow> buffers option" where
  "read_file big bs =
     do { (mesh_count, bs1) \<leftarrow> read_u32 big bs;
          (ms, bs2) \<leftarrow> read_many (read_mesh big) (unat mesh_count) bs1;
          (vertex_count_total, bs3) \<leftarrow> read_u32 big bs2;
          (vs, bs4) \<leftarrow> read_many (read_vertex big) (unat vertex_count_total) bs3;
          (index_count_total, bs5) \<leftarrow> read_u32 big bs4;
          (is, bs6) \<leftarrow> read_many (read_u32 big) (unat index_count_total) bs5;
          Some \<lparr>meshes = ms, vertexes = vs, indexes = is\<rparr> }"

text \<open>The 32-bit field found at a byte offset of the stream.\<close>

definition u32_at :: "bool \<Rightarrow> byte list \<Rightarrow> nat \<Rightarrow> 32 word" where
  "u32_at big bs off = u32_of_bytes big (take 4 (drop off bs))"

definition read_back :: "bool \<Rightarrow> byte list \<Rightarrow> buffers" where
  "read_back big bs =
     (case read_file big bs of
        None \<Rightarrow> \<lparr>meshes = [], vertexes = [], indexes = []\<rparr>
      | Some f \<Rightarrow> f)"

section \<open>Closed forms of the loops\<close>

text \<open>
  What the loops compute, written without accumulators. These functions are proof
  devices: each is shown below to agree with the loop it describes.
\<close>

definition triangles :: "aiFace list \<Rightarrow> nat" where
  "triangles fs = length (filter (\<lambda>f. length f = 3) fs)"

fun face_indexes :: "u32 \<Rightarrow> aiFace list \<Rightarrow> u32 list" where
  "face_indexes ib [] = []"
| "face_indexes ib (f # fs) =
     (if length f = 3 then [ib + f ! 0, ib + f ! 1, ib + f ! 2] @ face_indexes ib fs
      else face_indexes ib fs)"

definition material_ok :: "aiScene \<Rightarrow> aiMesh \<Rightarrow> bool" where
  "material_ok sc m = (unat (mMaterialIndex m) < length (mMaterials sc))"

definition mesh_record :: "aiScene \<Rightarrow> nat \<Rightarrow> nat \<Rightarrow> aiMesh \<Rightarrow> Mesh" where
  "mesh_record sc V I m =
     \<lparr>color = Get_color_diffuse (mMaterials sc ! unat (mMaterialIndex m)) (Vec3 0 0 0),
      vertex_base = of_nat V, vertex_count = of_nat (length (mVertices m)),
      index_base = of_nat I, index_count = of_nat (3 * triangles (mFaces m))\<rparr>"

fun records :: "aiScene \<Rightarrow> nat \<Rightarrow> nat \<Rightarrow> aiMesh list \<Rightarrow> Mesh list" where
  "records sc V I [] = []"
| "records sc V I (m # ms) =
     mesh_record sc V I m #
     records sc (V + length (mVertices m)) (I + 3 * triangles (mFaces m)) ms"

fun pool_indexes :: "nat \<Rightarrow> aiMesh list \<Rightarrow> u32 list" where
  "pool_indexes I [] = []"
| "pool_indexes I (m # ms) =
     face_indexes (of_nat I) (mFaces m) @ pool_indexes (I + 3 * triangles (mFaces m)) ms"

fun new_vertexes :: "(nat \<Rightarrow> Vertex) \<Rightarrow> nat \<Rightarrow> vec3 list \<Rightarrow> Vertex list" where
  "new_vertexes vert n [] = []"
| "new_vertexes vert n (p # ps) = (vert n)\<lparr>position := p\<rparr> # new_vertexes vert (Suc n) ps"

fun pool_vertexes :: "(nat \<Rightarrow> Vertex) \<Rightarrow> nat \<Rightarrow> aiMesh list \<Rightarrow> Vertex list" where
  "pool_vertexes vert V [] = []"
| "pool_vertexes vert V (m # ms) =
     new_vertexes vert V (mVertices m) @ pool_vertexes vert (V + length (mVertices m)) ms"

definition total_vertices :: "aiMesh list \<Rightarrow> nat" where
  "total_vertices ms = sum_list (map (\<lambda>m. length (mVertices m)) ms)"

definition total_triangles :: "aiMesh list \<Rightarrow> nat" where
  "total_triangles ms = sum_list (map (\<lambda>m. triangles (mFaces m)) ms)"

text \<open>The scene without face \<open>j\<close> of mesh \<open>k\<close>.\<close>

definition remove_face :: "nat \<Rightarrow> nat \<Rightarrow> aiScene \<Rightarrow> aiScene" where
  "remove_face k j sc =
     sc\<lparr>mMeshes := (mMeshes sc)
          [k := (mMeshes sc ! k)\<lparr>mFaces := take j (mFaces (mMeshes sc ! k)) @
                                           drop (Suc j) (mFaces (mMeshes sc ! k))\<rparr>]\<rparr>"

subsection \<open>The file as a sequence of 4-byte fields\<close>

definition fields_bytes :: "bool \<Rightarrow> 32 word list \<Rightarrow> byte list" where
  "fields_bytes big ws = concat (map (object_bytes big) ws)"

definition vec3_fields :: "vec3 \<Rightarrow> 32 word list" where
  "vec3_fields v = [vec_x v, vec_y v, vec_z v]"

definition mesh_fields :: "Mesh \<Rightarrow> 32 word list" where
  "mesh_fields m =
     vec3_fields (color m) @ [vertex_base m, vertex_count m, index_base m, index_count m]"

definition vertex_fields :: "Vertex \<Rightarrow> 32 word list" where
  "vertex_fields v = vec3_fields (position v) @ vec3_fields (normal v)"

definition file_fields :: "buffers \<Rightarrow> 32 word list" where
  "file_fields b =
     of_nat (length (meshes b)) # concat (map mesh_fields (meshes b)) @
     of_nat (length (vertexes b)) # concat (map vertex_fields (vertexes b)) @
     of_nat (length (indexes b)) # indexes b"

section \<open>Example scenes\<close>

text \<open>
  Two ways default initialisation can leave the vertex objects. \<open>zero_Vertex\<close>:
  every object is zero-filled. \<open>stale_Vertex\<close>: the memory is left as it was, and
  the object of pool entry \<open>n\<close> holds the pattern of \<open>1.0f\<close> and the number \<open>n\<close> in
  the first two components of its normal.
\<close>

definition zero_Vertex :: "nat \<Rightarrow> Vertex" where
  "zero_Vertex n = \<lparr>position = Vec3 0 0 0, normal = Vec3 0 0 0\<rparr>"

definition stale_Vertex :: "nat \<Rightarrow> Vertex" where
  "stale_Vertex n = \<lparr>position = Vec3 0 0 0, normal = Vec3 0x3F800000 (of_nat n) 0\<rparr>"

text \<open>
  The specification's end-to-end example. Mesh A: 4 vertices, 2 triangles, diffuse
  \<open>(1, 0, 0)\<close>. Mesh B: 3 vertices, a triangle and a face with 4 vertex references,
  no diffuse colour. \<open>0x3F800000\<close> is \<open>1.0f\<close>, \<open>0x40000000\<close> is \<open>2.0f\<close>.
\<close>

definition example_scene :: aiScene where
  "example_scene =
     \<lparr>mMeshes =
        [\<lparr>mVertices = [Vec3 0 0 0, Vec3 0x3F800000 0 0, Vec3 0x3F800000 0x3F800000 0,
                        Vec3 0 0x3F800000 0],
          mFaces = [[0, 1, 2], [0, 2, 3]], mMaterialIndex = 0\<rparr>,
         \<lparr>mVertices = [Vec3 0 0 0x40000000, Vec3 0x3F800000 0 0x40000000,
                        Vec3 0 0x3F800000 0x40000000],
          mFaces = [[0, 1, 2], [0, 1, 2, 1]], mMaterialIndex = 1\<rparr>],
      mMaterials = [\<lparr>color_diffuse = Some (Vec3 0x3F800000 0 0)\<rparr>,
                    \<lparr>color_diffuse = None\<rparr>]\<rparr>"

definition example_buffers :: "(nat \<Rightarrow> Vertex) \<Rightarrow> buffers" where
  "example_buffers vert =
     \<lparr>meshes =
        [\<lparr>color = Vec3 0x3F800000 0 0, vertex_base = 0, vertex_count = 4,
          index_base = 0, index_count = 6\<rparr>,
         \<lparr>color = Vec3 0 0 0, vertex_base = 4, vertex_count = 3,
          index_base = 6, index_count = 3\<rparr>],
      vertexes =
        [(vert 0)\<lparr>position := Vec3 0 0 0\<rparr>,
         (vert 1)\<lparr>position := Vec3 0x3F800000 0 0\<rparr>,
         (vert 2)\<lparr>position := Vec3 0x3F800000 0x3F800000 0\<rparr>,
         (vert 3)\<lparr>position := Vec3 0 0x3F800000 0\<rparr>,
         (vert 4)\<lparr>position := Vec3 0 0 0x40000000\<rparr>,
         (vert 5)\<lparr>position := Vec3 0x3F800000 0 0x40000000\<rparr>,
         (vert 6)\<lparr>position := Vec3 0 0x3F800000 0x40000000\<rparr>],
      indexes = [0, 1, 2, 0, 2, 3, 6, 7, 8]\<rparr>"

text \<open>
  Scenes at the edge of 32 bits. A mesh of \<open>2 ^ 31\<close> vertices and no face; two of
  them hold \<open>2 ^ 32\<close> vertices, three hold \<open>3 * 2 ^ 31\<close>. A mesh of one vertex and
  1431655766 triangles, that is \<open>2 ^ 32 + 2\<close> indices. Each count of each mesh fits
  its \<^verbatim>\<open>unsigned int\<close> field.
\<close>

definition half_pool_mesh :: aiMesh where
  "half_pool_mesh =
     \<lparr>mVertices = replicate 2147483648 (Vec3 0 0 0), mFaces = [], mMaterialIndex = 0\<rparr>"

definition two_half_pools :: aiScene where
  "two_half_pools =
     \<lparr>mMeshes = [half_pool_mesh, half_pool_mesh], mMaterials = [\<lparr>color_diffuse = None\<rparr>]\<rparr>"

definition three_half_pools :: aiScene where
  "three_half_pools =
     \<lparr>mMeshes = [half_pool_mesh, half_pool_mesh, half_pool_mesh],
      mMaterials = [\<lparr>color_diffuse = None\<rparr>]\<rparr>"

definition many_triangles :: aiScene where
  "many_triangles =
     \<lparr>mMeshes = [\<lparr>mVertices = [Vec3 0 0 0], mFaces = replicate 1431655766 [0, 0, 0],
                   mMaterialIndex = 0\<rparr>],
      mMaterials = [\<lparr>color_diffuse = None\<rparr>]\<rparr>"

definition empty_scene :: aiScene where
  "empty_scene = \<lparr>mMeshes = [], mMaterials = []\<rparr>"

text \<open>Command lines and import services for the examples.\<close>

definition no_source :: variables_map where
  "no_source = \<lparr>vm_help = False, vm_source = None, vm_out = Some ''out.bin''\<rparr>"

definition both_set :: variables_map where
  "both_set = \<lparr>vm_help = False, vm_source = Some ''model.obj'', vm_out = Some ''out.bin''\<rparr>"

definition failing_ReadFile :: "string \<Rightarrow> aiScene option" where
  "failing_ReadFile file_path = None"

section \<open>The loops agree with their closed forms\<close>

lemma length_new_vertexes [simp]: "length (new_vertexes vert n ps) = length ps"
  by (induction ps arbitrary: n) simp_all

lemma load_vertexes_eq:
  "load_vertexes vert ps vs = vs @ new_vertexes vert (length vs) ps"
  by (induction ps arbitrary: vs) simp_all

lemma add_index_count_length [simp]: "length (add_index_count n ms) = length ms"
  by (simp add: add_index_count_def)

lemma load_faces_vertexes [simp]: "vertexes (load_faces ib n fs st) = vertexes st"
  by (induction fs arbitrary: st) simp_all

lemma load_faces_indexes:
  "indexes (load_faces ib n fs st) = indexes st @ face_indexes ib fs"
  by (induction fs arbitrary: st) simp_all

lemma length_face_indexes: "length (face_indexes ib fs) = 3 * triangles fs"
  by (induction fs) (simp_all add: triangles_def)

lemma load_faces_meshes:
  "n < length (meshes st) \<Longrightarrow>
   meshes (load_faces ib n fs st) =
     (meshes st)[n := (meshes st ! n)\<lparr>index_count :=
        index_count (meshes st ! n) + of_nat (3 * triangles fs)\<rparr>]"
proof (induction fs arbitrary: st)
  case Nil
  then show ?case by (simp add: triangles_def)
next
  case (Cons f fs)
  show ?case
  proof (cases "length f = 3")
    case True
    let ?st = "st\<lparr>indexes := indexes st @ [ib + f ! 0, ib + f ! 1, ib + f ! 2],
                   meshes := add_index_count n (meshes st)\<rparr>"
    have "n < length (meshes ?st)" using Cons.prems by simp
    from Cons.IH [OF this] True Cons.prems show ?thesis
      by (simp add: triangles_def add_index_count_def algebra_simps)
  next
    case False
    with Cons show ?thesis by (simp add: triangles_def)
  qed
qed

lemma load_mesh_Inr:
  assumes "n < length (meshes st)" and "meshes st ! n = zero_Mesh" and "material_ok sc m"
  shows "load_mesh vert sc n m st =
     Inr \<lparr>meshes = (meshes st)
            [n := mesh_record sc (length (vertexes st)) (length (indexes st)) m],
          vertexes = vertexes st @ new_vertexes vert (length (vertexes st)) (mVertices m),
          indexes = indexes st @ face_indexes (of_nat (length (indexes st))) (mFaces m)\<rparr>"
  using assms
  by (simp add: load_mesh_def Let_def material_ok_def load_faces_meshes load_faces_indexes
      load_vertexes_eq mesh_record_def zero_Mesh_def buffers.equality)

lemma load_mesh_Inl:
  "\<not> material_ok sc m \<Longrightarrow> load_mesh vert sc n m st = Inl MaterialIndexOutOfRange"
  by (simp add: load_mesh_def material_ok_def Let_def)

lemma length_records [simp]: "length (records sc V I ms) = length ms"
  by (induction ms arbitrary: V I) simp_all

lemma load_meshes_Inr:
  assumes "list_all (material_ok sc) ms"
    and "length (meshes st) = n + length ms"
    and "drop n (meshes st) = replicate (length ms) zero_Mesh"
  shows "load_meshes vert sc n ms st =
     Inr \<lparr>meshes = take n (meshes st) @
                     records sc (length (vertexes st)) (length (indexes st)) ms,
          vertexes = vertexes st @ pool_vertexes vert (length (vertexes st)) ms,
          indexes = indexes st @ pool_indexes (length (indexes st)) ms\<rparr>"
  using assms
proof (induction ms arbitrary: n st)
  case Nil
  then show ?case by simp
next
  case (Cons m ms)
  let ?st' = "\<lparr>meshes = (meshes st)
                  [n := mesh_record sc (length (vertexes st)) (length (indexes st)) m],
              vertexes = vertexes st @ new_vertexes vert (length (vertexes st)) (mVertices m),
              indexes = indexes st @ face_indexes (of_nat (length (indexes st))) (mFaces m)\<rparr>"
  have n: "n < length (meshes st)" using Cons.prems(2) by simp
  have "meshes st ! n = hd (drop n (meshes st))"
    using n by (simp add: hd_drop_conv_nth)
  then have z: "meshes st ! n = zero_Mesh" using Cons.prems(3) by simp
  have ok: "material_ok sc m" "list_all (material_ok sc) ms" using Cons.prems(1) by simp_all
  have step: "load_mesh vert sc n m st = Inr ?st'"
    by (rule load_mesh_Inr [OF n z ok(1)])
  have len: "length (meshes ?st') = Suc n + length ms" using Cons.prems(2) by simp
  have "drop (Suc n) (meshes ?st') = drop (Suc n) (meshes st)" by simp
  also have "\<dots> = tl (drop n (meshes st))" by (simp add: drop_Suc tl_drop)
  also have "\<dots> = replicate (length ms) zero_Mesh" using Cons.prems(3) by simp
  finally have dr: "drop (Suc n) (meshes ?st') = replicate (length ms) zero_Mesh" .
  have tk: "take (Suc n) (meshes ?st') =
      take n (meshes st) @ [mesh_record sc (length (vertexes st)) (length (indexes st)) m]"
    using n by (simp add: take_Suc_conv_app_nth)
  show ?case
    using Cons.IH [OF ok(2) len dr] step tk
    by (simp add: length_face_indexes)
qed

lemma load_meshes_Inl:
  "\<not> list_all (material_ok sc) ms \<Longrightarrow>
   load_meshes vert sc n ms st = Inl MaterialIndexOutOfRange"
proof (induction ms arbitrary: n st)
  case Nil
  then show ?case by simp
next
  case (Cons m ms)
  show ?case
  proof (cases "material_ok sc m")
    case True
    with Cons.prems have "\<not> list_all (material_ok sc) ms" by simp
    from Cons.IH [OF this] show ?thesis
      by (simp split: sum.splits) (metis fault.exhaust)
  next
    case False
    then show ?thesis by (simp add: load_mesh_Inl)
  qed
qed

lemma flatten_Inr:
  "list_all (material_ok sc) (mMeshes sc) \<Longrightarrow>
   flatten vert sc =
     Inr \<lparr>meshes = records sc 0 0 (mMeshes sc),
          vertexes = pool_vertexes vert 0 (mMeshes sc),
          indexes = pool_indexes 0 (mMeshes sc)\<rparr>"
  unfolding flatten_def
  by (subst load_meshes_Inr) simp_all

lemma flatten_Inl:
  "\<not> list_all (material_ok sc) (mMeshes sc) \<Longrightarrow>
   flatten vert sc = Inl MaterialIndexOutOfRange"
  unfolding flatten_def by (rule load_meshes_Inl)

lemma flatten_cases:
  assumes "flatten vert sc = Inr b"
  shows "list_all (material_ok sc) (mMeshes sc)"
    and "meshes b = records sc 0 0 (mMeshes sc)"
    and "vertexes b = pool_vertexes vert 0 (mMeshes sc)"
    and "indexes b = pool_indexes 0 (mMeshes sc)"
proof -
  show ok: "list_all (material_ok sc) (mMeshes sc)"
    using assms flatten_Inl by fastforce
  from flatten_Inr [OF ok, of vert] assms
  show "meshes b = records sc 0 0 (mMeshes sc)"
    and "vertexes b = pool_vertexes vert 0 (mMeshes sc)"
    and "indexes b = pool_indexes 0 (mMeshes sc)" by auto
qed

subsection \<open>Sizes of the pools and the record of mesh \<open>k\<close>\<close>

lemma length_pool_vertexes: "length (pool_vertexes vert V ms) = total_vertices ms"
  by (induction ms arbitrary: V) (simp_all add: total_vertices_def)

lemma length_pool_indexes: "length (pool_indexes I ms) = 3 * total_triangles ms"
  by (induction ms arbitrary: I) (simp_all add: total_triangles_def length_face_indexes)

lemma total_vertices_take_Suc:
  "k < length ms \<Longrightarrow>
   total_vertices (take (Suc k) ms) = total_vertices (take k ms) + length (mVertices (ms ! k))"
  by (simp add: total_vertices_def take_Suc_conv_app_nth)

lemma total_triangles_take_Suc:
  "k < length ms \<Longrightarrow>
   total_triangles (take (Suc k) ms) = total_triangles (take k ms) + triangles (mFaces (ms ! k))"
  by (simp add: total_triangles_def take_Suc_conv_app_nth)

lemma total_vertices_take_le: "total_vertices (take k ms) \<le> total_vertices ms"
proof -
  have "total_vertices ms = total_vertices (take k ms) + total_vertices (drop k ms)"
    unfolding total_vertices_def
    by (metis append_take_drop_id map_append sum_list_append)
  then show ?thesis by simp
qed

lemma total_triangles_take_le: "total_triangles (take k ms) \<le> total_triangles ms"
proof -
  have "total_triangles ms = total_triangles (take k ms) + total_triangles (drop k ms)"
    unfolding total_triangles_def
    by (metis append_take_drop_id map_append sum_list_append)
  then show ?thesis by simp
qed

lemma records_nth:
  "k < length ms \<Longrightarrow>
   records sc V I ms ! k =
     mesh_record sc (V + total_vertices (take k ms)) (I + 3 * total_triangles (take k ms)) (ms ! k)"
proof (induction ms arbitrary: V I k)
  case Nil
  then show ?case by simp
next
  case (Cons m ms)
  show ?case
  proof (cases k)
    case 0
    then show ?thesis by (simp add: total_vertices_def total_triangles_def)
  next
    case (Suc j)
    with Cons.prems have "j < length ms" by simp
    from Cons.IH [OF this] Suc show ?thesis
      by (simp add: total_vertices_def total_triangles_def algebra_simps)
  qed
qed

lemma unat_u32_less: "unat (w :: 32 word) < 4294967296"
  using unsigned_less [of w, where ?'a = nat] by simp

lemma unat_of_nat_u32: "n < 4294967296 \<Longrightarrow> unat (of_nat n :: 32 word) = n"
  by (simp add: unat_of_nat)

section \<open>The writer emits the fields in layout order\<close>

lemma length_object_bytes [simp]: "length (object_bytes big w) = 4"
  by (simp add: object_bytes_def Let_def)

lemma u32_of_object_bytes [simp]: "u32_of_bytes big (object_bytes big w) = w"
proof -
  let ?r = "(ucast (ucast w :: byte) OR push_bit 8 (ucast (ucast (drop_bit 8 w) :: byte)) OR
        push_bit 16 (ucast (ucast (drop_bit 16 w) :: byte)) OR
        push_bit 24 (ucast (ucast (drop_bit 24 w) :: byte))) :: 32 word"
  have "?r = w"
  proof (rule bit_word_eqI)
    fix n :: nat
    assume "n < LENGTH(32)"
    then have n: "n < 32" by simp
    have a: "8 \<le> n \<Longrightarrow> 8 + (n - 8) = n" "16 \<le> n \<Longrightarrow> 16 + (n - 16) = n"
      "24 \<le> n \<Longrightarrow> 24 + (n - 24) = n" by simp_all
    consider "n < 8" | "8 \<le> n" "n < 16" | "16 \<le> n" "n < 24" | "24 \<le> n" by linarith
    then show "bit ?r n = bit w n"
      using n a by cases (auto simp add: bit_simps)
  qed
  then show ?thesis
    by (simp add: u32_of_bytes_def object_bytes_def Let_def)
qed

lemma fields_bytes_simps [simp]:
  "fields_bytes big [] = []"
  "fields_bytes big (w # ws) = object_bytes big w @ fields_bytes big ws"
  "fields_bytes big (ws @ ws') = fields_bytes big ws @ fields_bytes big ws'"
  by (simp_all add: fields_bytes_def)

lemma length_fields_bytes [simp]: "length (fields_bytes big ws) = 4 * length ws"
  by (induction ws) simp_all

lemma write_to_file_vec3_eq:
  "write_to_file_vec3 big output_file v = output_file @ fields_bytes big (vec3_fields v)"
  by (simp add: write_to_file_vec3_def vec3_fields_def Let_def)

lemma save_meshes_eq:
  "save_meshes big ms output_file =
     output_file @ fields_bytes big (concat (map mesh_fields ms))"
  by (induction ms arbitrary: output_file)
     (simp_all add: Let_def write_to_file_vec3_eq write_to_file_u32_def mesh_fields_def)

lemma save_vertexes_eq:
  "save_vertexes big vs output_file =
     output_file @ fields_bytes big (concat (map vertex_fields vs))"
  by (induction vs arbitrary: output_file)
     (simp_all add: Let_def write_to_file_vec3_eq vertex_fields_def)

lemma save_indexes_eq:
  "save_indexes big is output_file = output_file @ fields_bytes big is"
  by (induction "is" arbitrary: output_file) (simp_all add: write_to_file_u32_def)

lemma save_file_eq:
  "save_file big b output_file = output_file @ fields_bytes big (file_fields b)"
  by (simp add: save_file_def Let_def save_meshes_eq save_vertexes_eq save_indexes_eq
      write_to_file_u32_def file_fields_def)

lemma u32_at_fields:
  "i < length ws \<Longrightarrow> u32_at big (fields_bytes big ws) (4 * i) = ws ! i"
proof (induction ws arbitrary: i)
  case Nil
  then show ?case by simp
next
  case (Cons w ws)
  show ?case
  proof (cases i)
    case 0
    then show ?thesis by (simp add: u32_at_def)
  next
    case (Suc j)
    with Cons.prems have "j < length ws" by simp
    from Cons.IH [OF this] Suc show ?thesis by (simp add: u32_at_def)
  qed
qed

lemma length_concat_mesh_fields [simp]:
  "length (concat (map mesh_fields ms)) = 7 * length ms"
  by (induction ms) (simp_all add: mesh_fields_def vec3_fields_def)

lemma length_concat_vertex_fields [simp]:
  "length (concat (map vertex_fields vs)) = 6 * length vs"
  by (induction vs) (simp_all add: vertex_fields_def vec3_fields_def)

lemma concat_vertex_fields_nth:
  "k < length vs \<Longrightarrow> j < 6 \<Longrightarrow>
   concat (map vertex_fields vs) ! (6 * k + j) = vertex_fields (vs ! k) ! j"
proof (induction vs arbitrary: k)
  case Nil
  then show ?case by simp
next
  case (Cons v vs)
  have six: "length (vertex_fields v) = 6"
    by (simp add: vertex_fields_def vec3_fields_def)
  show ?case
  proof (cases k)
    case 0
    with Cons.prems six show ?thesis by (simp add: nth_append)
  next
    case (Suc i)
    with Cons.prems have "i < length vs" by simp
    from Cons.IH [OF this Cons.prems(2)] Suc six show ?thesis
      by (simp add: nth_append)
  qed
qed

lemma file_fields_vertex_count:
  "file_fields b ! (1 + 7 * length (meshes b)) = of_nat (length (vertexes b))"
  by (simp add: file_fields_def nth_append)

lemma file_fields_vertex_field:
  assumes "k < length (vertexes b)" and "j < 6"
  shows "file_fields b ! (2 + 7 * length (meshes b) + 6 * k + j) =
         vertex_fields (vertexes b ! k) ! j"
proof -
  have "file_fields b ! (2 + 7 * length (meshes b) + 6 * k + j) =
        (concat (map vertex_fields (vertexes b)) @ of_nat (length (indexes b)) # indexes b)
          ! (6 * k + j)"
    by (simp add: file_fields_def nth_append)
  also have "\<dots> = concat (map vertex_fields (vertexes b)) ! (6 * k + j)"
    using assms by (simp add: nth_append)
  finally show ?thesis using assms by (simp add: concat_vertex_fields_nth)
qed

lemma length_file_fields:
  "length (file_fields b) =
     3 + 7 * length (meshes b) + 6 * length (vertexes b) + length (indexes b)"
  by (simp add: file_fields_def)

subsection \<open>Reading the fields back\<close>

lemma read_u32_object_bytes [simp]:
  "read_u32 big (object_bytes big w @ rest) = Some (w, rest)"
  by (simp add: read_u32_def)

lemma read_vec3_fields [simp]:
  "read_vec3 big (fields_bytes big (vec3_fields v) @ rest) = Some (v, rest)"
  by (simp add: read_vec3_def vec3_fields_def)

lemma read_mesh_fields [simp]:
  "read_mesh big (fields_bytes big (mesh_fields m) @ rest) = Some (m, rest)"
  by (simp add: read_mesh_def mesh_fields_def)

lemma read_vertex_fields [simp]:
  "read_vertex big (fields_bytes big (vertex_fields v) @ rest) = Some (v, rest)"
  by (simp add: read_vertex_def vertex_fields_def)

lemma read_many_records:
  assumes "\<And>x rest. rd (fields_bytes big (f x) @ rest) = Some (x, rest)"
  shows "read_many rd (length xs) (fields_bytes big (concat (map f xs)) @ rest) =
         Some (xs, rest)"
  by (induction xs) (simp_all add: assms)

lemma read_many_u32:
  "read_many (read_u32 big) (length ws) (fields_bytes big ws @ rest) = Some (ws, rest)"
  by (induction ws) simp_all

lemma read_many_length:
  "read_many rd n bs = Some (xs, rest) \<Longrightarrow> length xs = n"
  by (induction n arbitrary: bs xs) (auto split: bind_splits)

lemma read_file_save_file:
  assumes "length (meshes b) < 4294967296" and "length (vertexes b) < 4294967296"
    and "length (indexes b) < 4294967296"
  shows "read_file big (save_file big b []) = Some b"
proof -
  have u: "unat (of_nat (length (meshes b)) :: 32 word) = length (meshes b)"
      "unat (of_nat (length (vertexes b)) :: 32 word) = length (vertexes b)"
      "unat (of_nat (length (indexes b)) :: 32 word) = length (indexes b)"
    using assms by (simp_all add: unat_of_nat_u32)
  have m: "\<And>rest. read_many (read_mesh big) (length (meshes b))
        (fields_bytes big (concat (map mesh_fields (meshes b))) @ rest) =
        Some (meshes b, rest)"
    by (rule read_many_records) simp
  have v: "\<And>rest. read_many (read_vertex big) (length (vertexes b))
        (fields_bytes big (concat (map vertex_fields (vertexes b))) @ rest) =
        Some (vertexes b, rest)"
    by (rule read_many_records) simp
  have i: "read_many (read_u32 big) (length (indexes b)) (fields_bytes big (indexes b)) =
        Some (indexes b, [])"
    using read_many_u32 [of big "indexes b" "[]"] by simp
  show ?thesis
    by (simp add: save_file_eq file_fields_def read_file_def u m v i)
qed

lemma read_file_lengths:
  assumes "read_file big bs = Some f"
  shows "length (meshes f) < 4294967296" and "length (vertexes f) < 4294967296"
    and "length (indexes f) < 4294967296"
  using assms
  by (auto simp: read_file_def unat_u32_less split: bind_splits dest!: read_many_length)

lemma read_back_vertexes_length: "length (vertexes (read_back big bs)) < 4294967296"
  by (cases "read_file big bs") (simp_all add: read_back_def read_file_lengths)

subsection \<open>The example scenes, evaluated\<close>

lemma flatten_example: "flatten vert example_scene = Inr (example_buffers vert)"
  by (simp add: flatten_def example_scene_def example_buffers_def load_mesh_def Let_def
      Get_color_diffuse_def add_index_count_def zero_Mesh_def eval_nat_numeral)

lemma material_ok_half_pools:
  "list_all (material_ok two_half_pools) (mMeshes two_half_pools)"
  "list_all (material_ok three_half_pools) (mMeshes three_half_pools)"
  "list_all (material_ok many_triangles) (mMeshes many_triangles)"
  by (simp_all add: two_half_pools_def three_half_pools_def many_triangles_def
      material_ok_def half_pool_mesh_def)

lemma total_vertices_half_pools:
  "total_vertices (mMeshes two_half_pools) = 4294967296"
  "total_vertices (mMeshes three_half_pools) = 6442450944"
  by (simp_all add: two_half_pools_def three_half_pools_def total_vertices_def
      half_pool_mesh_def)

lemma triangles_replicate: "triangles (replicate n [a, b, c]) = n"
  by (simp add: triangles_def)

section \<open>Properties of the flattener\<close>

subsection \<open>Faces that are not triangles\<close>

lemma load_faces_filter:
  "load_faces ib n fs st = load_faces ib n (filter (\<lambda>f. length f = 3) fs) st"
  by (induction fs arbitrary: st) simp_all

lemma load_mesh_same_triangles:
  assumes "mMaterials sc' = mMaterials sc" and "mVertices m' = mVertices m"
    and "mMaterialIndex m' = mMaterialIndex m"
    and "filter (\<lambda>f. length f = 3) (mFaces m') = filter (\<lambda>f. length f = 3) (mFaces m)"
  shows "load_mesh vert sc' n m' st = load_mesh vert sc n m st"
proof -
  have "load_faces ib n (mFaces m') s = load_faces ib n (mFaces m) s" for ib s
    using assms(4) load_faces_filter [of ib n "mFaces m'" s]
      load_faces_filter [of ib n "mFaces m" s] by simp
  then show ?thesis using assms(1-3) by (simp add: load_mesh_def Let_def)
qed

lemma load_meshes_same_triangles:
  assumes "mMaterials sc' = mMaterials sc"
    and "list_all2 (\<lambda>m' m. mVertices m' = mVertices m \<and>
           mMaterialIndex m' = mMaterialIndex m \<and>
           filter (\<lambda>f. length f = 3) (mFaces m') = filter (\<lambda>f. length f = 3) (mFaces m))
         ms' ms"
  shows "load_meshes vert sc' n ms' st = load_meshes vert sc n ms st"
  using assms(2)
proof (induction ms' ms arbitrary: n st rule: list_all2_induct)
  case Nil
  then show ?case by simp
next
  case (Cons m' ms' m ms)
  have "load_mesh vert sc' n m' st = load_mesh vert sc n m st"
    using Cons.hyps(1) assms(1) by (intro load_mesh_same_triangles) simp_all
  then show ?case using Cons.IH by (simp split: sum.splits)
qed

lemma filter_without_nth:
  assumes "j < length fs" and "\<not> P (fs ! j)"
  shows "filter P (take j fs @ drop (Suc j) fs) = filter P fs"
proof -
  have "fs = take j fs @ fs ! j # drop (Suc j) fs"
    using assms(1) by (rule id_take_nth_drop)
  then have "filter P fs = filter P (take j fs @ fs ! j # drop (Suc j) fs)" by simp
  also have "\<dots> = filter P (take j fs @ drop (Suc j) fs)" using assms(2) by simp
  finally show ?thesis by simp
qed

text \<open>
  C6. A face whose number of vertex references is not 3 contributes nothing: the
  flattener's whole result (index pool, every mesh record with its \<open>index_count\<close>,
  vertex pool, and whether the run faults) is the result for the scene without that
  face. Nothing is appended for it, nothing is counted, no error is raised and no
  triangulation takes place.
\<close>

theorem non_triangle_face_is_skipped:
  assumes "k < length (mMeshes sc)"
    and "j < length (mFaces (mMeshes sc ! k))"
    and "length (mFaces (mMeshes sc ! k) ! j) \<noteq> 3"
  shows "flatten vert (remove_face k j sc) = flatten vert sc"
proof -
  let ?fs = "mFaces (mMeshes sc ! k)"
  let ?m' = "(mMeshes sc ! k)\<lparr>mFaces := take j ?fs @ drop (Suc j) ?fs\<rparr>"
  let ?R = "\<lambda>m' m. mVertices m' = mVertices m \<and> mMaterialIndex m' = mMaterialIndex m \<and>
           filter (\<lambda>f. length f = 3) (mFaces m') = filter (\<lambda>f. length f = 3) (mFaces m)"
  have ms: "mMeshes (remove_face k j sc) = (mMeshes sc)[k := ?m']"
    and mats: "mMaterials (remove_face k j sc) = mMaterials sc"
    by (simp_all add: remove_face_def)
  have f: "filter (\<lambda>f. length f = 3) (take j ?fs @ drop (Suc j) ?fs) =
           filter (\<lambda>f. length f = 3) ?fs"
    using assms(2,3) by (rule filter_without_nth)
  have "?R (((mMeshes sc)[k := ?m']) ! i) (mMeshes sc ! i)" if "i < length (mMeshes sc)" for i
    using that f by (cases "i = k") simp_all
  then have rel: "list_all2 ?R ((mMeshes sc)[k := ?m']) (mMeshes sc)"
    by (simp add: list_all2_conv_all_nth)
  show ?thesis
    unfolding flatten_def ms
    using load_meshes_same_triangles [OF mats rel] by simp
qed

text \<open>Witness: the face with four references of mesh B in the example scene.\<close>

theorem non_triangle_face_is_skipped_witness:
  "(1::nat) < length (mMeshes example_scene) \<and>
   (1::nat) < length (mFaces (mMeshes example_scene ! 1)) \<and>
   length (mFaces (mMeshes example_scene ! 1) ! 1) = 4 \<and>
   flatten zero_Vertex (remove_face 1 1 example_scene) = Inr (example_buffers zero_Vertex)"
proof -
  have h: "(1::nat) < length (mMeshes example_scene)"
    "(1::nat) < length (mFaces (mMeshes example_scene ! 1))"
    "length (mFaces (mMeshes example_scene ! 1) ! 1) \<noteq> 3"
    "length (mFaces (mMeshes example_scene ! 1) ! 1) = 4"
    by (simp_all add: example_scene_def)
  from non_triangle_face_is_skipped [OF h(1-3), of zero_Vertex] h flatten_example
  show ?thesis by simp
qed

subsection \<open>Materials\<close>

text \<open>
  C10. The material table is indexed by \<open>mMaterialIndex\<close> with no bounds check: an
  index past the end is the fault of the model. When every submesh's material index
  is a valid index into the scene's material table, every access is in range and the
  flattener returns its buffers; the run does not abort.
\<close>

theorem valid_material_index_no_fault:
  assumes "list_all (\<lambda>m. unat (mMaterialIndex m) < length (mMaterials sc)) (mMeshes sc)"
  shows "\<exists>b. flatten vert sc = Inr b"
proof -
  have "list_all (material_ok sc) (mMeshes sc)"
    using assms by (simp add: material_ok_def [abs_def])
  from flatten_Inr [OF this] show ?thesis by blast
qed

theorem valid_material_index_no_fault_witness:
  "list_all (\<lambda>m. unat (mMaterialIndex m) < length (mMaterials example_scene))
     (mMeshes example_scene) \<and>
   (\<exists>b. flatten zero_Vertex example_scene = Inr b)"
proof -
  have h: "list_all (\<lambda>m. unat (mMaterialIndex m) < length (mMaterials example_scene))
     (mMeshes example_scene)"
    by (simp add: example_scene_def)
  from valid_material_index_no_fault [OF h, of zero_Vertex] h show ?thesis by simp
qed

text \<open>
  C8. A submesh whose material has no diffuse-colour entry gets the colour
  \<open>(0, 0, 0)\<close> in its mesh record, and the failed lookup does not fail the run:
  the flattener still returns its buffers.
\<close>

theorem missing_diffuse_gives_black:
  assumes "list_all (\<lambda>m. unat (mMaterialIndex m) < length (mMaterials sc)) (mMeshes sc)"
    and "k < length (mMeshes sc)"
    and "color_diffuse (mMaterials sc ! unat (mMaterialIndex (mMeshes sc ! k))) = None"
  shows "\<exists>b. flatten vert sc = Inr b \<and> color (meshes b ! k) = Vec3 0 0 0"
proof -
  have ok: "list_all (material_ok sc) (mMeshes sc)"
    using assms(1) by (simp add: material_ok_def [abs_def])
  have "color (records sc 0 0 (mMeshes sc) ! k) = Vec3 0 0 0"
    using assms(2,3) by (simp add: records_nth mesh_record_def Get_color_diffuse_def)
  with flatten_Inr [OF ok, of vert] show ?thesis by simp
qed

text \<open>Witness: mesh B of the example scene, whose material has no diffuse colour.\<close>

theorem missing_diffuse_gives_black_witness:
  "color_diffuse (mMaterials example_scene ! unat (mMaterialIndex (mMeshes example_scene ! 1)))
     = None \<and>
   (\<exists>b. flatten zero_Vertex example_scene = Inr b \<and> color (meshes b ! 1) = Vec3 0 0 0)"
proof -
  have h: "list_all (\<lambda>m. unat (mMaterialIndex m) < length (mMaterials example_scene))
     (mMeshes example_scene)"
    "(1::nat) < length (mMeshes example_scene)"
    "color_diffuse (mMaterials example_scene !
        unat (mMaterialIndex (mMeshes example_scene ! 1))) = None"
    by (simp_all add: example_scene_def)
  from missing_diffuse_gives_black [OF h, of zero_Vertex] h(3) show ?thesis by simp
qed

subsection \<open>Mesh records\<close>

lemma flatten_mesh_nth:
  assumes "flatten vert sc = Inr b" and "k < length (mMeshes sc)"
  shows "meshes b ! k =
     mesh_record sc (total_vertices (take k (mMeshes sc)))
       (3 * total_triangles (take k (mMeshes sc))) (mMeshes sc ! k)"
  using flatten_cases(2) [OF assms(1)] assms(2) by (simp add: records_nth)

lemma flatten_lengths:
  assumes "flatten vert sc = Inr b"
  shows "length (meshes b) = length (mMeshes sc)"
    and "length (vertexes b) = total_vertices (mMeshes sc)"
    and "length (indexes b) = 3 * total_triangles (mMeshes sc)"
  using flatten_cases(2-4) [OF assms]
  by (simp_all add: length_pool_vertexes length_pool_indexes)

lemma triangles_le: "triangles fs \<le> length fs"
  by (simp add: triangles_def)

lemma unat_three_of_nat_u32:
  "3 * n < 4294967296 \<Longrightarrow> unat (3 * of_nat n :: 32 word) = 3 * n"
  using unat_of_nat_u32 [of "3 * n"] by simp

text \<open>
  C7, amended. \<open>index_count\<close> is a 32-bit counter that is raised by 3 for each
  triangular face, so for a submesh with \<open>t\<close> triangular faces it holds \<open>3 * t\<close>
  modulo \<open>2 ^ 32\<close>. For every scene and every mesh record, \<open>index_count\<close> never
  exceeds 3 times the number of faces of the submesh; and where \<open>3 * t < 2 ^ 32\<close>
  it equals \<open>3 * t\<close> and is a multiple of 3.
\<close>

theorem index_count_multiple_of_three:
  assumes "flatten vert sc = Inr b" and "k < length (mMeshes sc)"
  shows "unat (index_count (meshes b ! k)) \<le> 3 * length (mFaces (mMeshes sc ! k)) \<and>
         (3 * triangles (mFaces (mMeshes sc ! k)) < 2 ^ 32 \<longrightarrow>
            unat (index_count (meshes b ! k)) = 3 * triangles (mFaces (mMeshes sc ! k)) \<and>
            3 dvd unat (index_count (meshes b ! k)))"
proof -
  let ?t = "triangles (mFaces (mMeshes sc ! k))"
  have ic: "unat (index_count (meshes b ! k)) = (3 * ?t) mod 4294967296"
    using flatten_mesh_nth [OF assms] unat_of_nat [of "3 * ?t", where ?'a = 32]
    by (simp add: mesh_record_def)
  have "(3 * ?t) mod 4294967296 \<le> 3 * ?t" by simp
  moreover have "3 * ?t \<le> 3 * length (mFaces (mMeshes sc ! k))"
    using triangles_le [of "mFaces (mMeshes sc ! k)"] by simp
  ultimately have le: "unat (index_count (meshes b ! k)) \<le> 3 * length (mFaces (mMeshes sc ! k))"
    using ic by linarith
  have "unat (index_count (meshes b ! k)) = 3 * ?t \<and> 3 dvd unat (index_count (meshes b ! k))"
    if "3 * ?t < 2 ^ 32"
    using that ic by simp
  with le show ?thesis by blast
qed

text \<open>Witness: mesh B of the example scene, one triangle among two faces.\<close>

theorem index_count_multiple_of_three_witness:
  "flatten zero_Vertex example_scene = Inr (example_buffers zero_Vertex) \<and>
   3 * triangles (mFaces (mMeshes example_scene ! 1)) = 3 \<and>
   unat (index_count (meshes (example_buffers zero_Vertex) ! 1)) = 3 \<and>
   3 dvd unat (index_count (meshes (example_buffers zero_Vertex) ! 1)) \<and>
   unat (index_count (meshes (example_buffers zero_Vertex) ! 1))
     \<le> 3 * length (mFaces (mMeshes example_scene ! 1))"
proof -
  have h: "(1::nat) < length (mMeshes example_scene)"
    "3 * triangles (mFaces (mMeshes example_scene ! 1)) < 2 ^ 32"
    and t: "3 * triangles (mFaces (mMeshes example_scene ! 1)) = 3"
    by (simp_all add: example_scene_def triangles_def)
  from index_count_multiple_of_three [OF flatten_example h(1), of zero_Vertex] h(2) t
    flatten_example [of zero_Vertex]
  show ?thesis by simp
qed

text \<open>
  Counterexample to the claim as stated: a submesh of 1431655766 triangular faces.
  Its counter wraps at \<open>2 ^ 32\<close> and ends at 2, which is not a multiple of 3.
\<close>

theorem index_count_wraps_counterexample:
  "unat (index_count (meshes (projr (flatten zero_Vertex many_triangles)) ! 0)) = 2 \<and>
   \<not> 3 dvd unat (index_count (meshes (projr (flatten zero_Vertex many_triangles)) ! 0))"
proof -
  have "meshes (projr (flatten zero_Vertex many_triangles)) ! 0 =
        mesh_record many_triangles 0 0 (mMeshes many_triangles ! 0)"
    by (simp add: flatten_Inr [OF material_ok_half_pools(3)]) (simp add: many_triangles_def)
  then have "index_count (meshes (projr (flatten zero_Vertex many_triangles)) ! 0) =
        of_nat (3 * 1431655766)"
    by (simp add: mesh_record_def many_triangles_def triangles_replicate)
  then have "unat (index_count (meshes (projr (flatten zero_Vertex many_triangles)) ! 0)) = 2"
    by (simp add: unat_of_nat)
  then show ?thesis by simp
qed

text \<open>
  C3, amended. For every scene whose total vertex count and total index count are
  below \<open>2 ^ 32\<close>, and every mesh record \<open>k\<close>: \<open>vertex_base\<close> is the number of vertices
  of the submeshes before \<open>k\<close>, \<open>index_base\<close> the number of indices appended for them,
  and \<open>vertex_base + vertex_count\<close> (\<open>index_base + index_count\<close>) is the next record's
  \<open>vertex_base\<close> (\<open>index_base\<close>), or the size of the pool for the last record. The
  ranges tile both pools from 0 in scene order, without gap or overlap.
\<close>

theorem mesh_ranges_tile_pools:
  assumes "flatten vert sc = Inr b"
    and "length (vertexes b) < 2 ^ 32"
    and "length (indexes b) < 2 ^ 32"
    and "k < length (meshes b)"
  shows "unat (vertex_base (meshes b ! k)) = total_vertices (take k (mMeshes sc)) \<and>
         unat (index_base (meshes b ! k)) = 3 * total_triangles (take k (mMeshes sc)) \<and>
         unat (vertex_base (meshes b ! k)) + unat (vertex_count (meshes b ! k)) =
           (if Suc k < length (meshes b) then unat (vertex_base (meshes b ! Suc k))
            else length (vertexes b)) \<and>
         unat (index_base (meshes b ! k)) + unat (index_count (meshes b ! k)) =
           (if Suc k < length (meshes b) then unat (index_base (meshes b ! Suc k))
            else length (indexes b))"
proof -
  let ?ms = "mMeshes sc"
  note len = flatten_lengths [OF assms(1)]
  have k: "k < length ?ms" using assms(4) len(1) by simp
  have V: "total_vertices ?ms < 4294967296" using assms(2) len(2) by simp
  have I: "3 * total_triangles ?ms < 4294967296" using assms(3) len(3) by simp
  have bound: "total_vertices (take j ?ms) < 4294967296"
    "3 * total_triangles (take j ?ms) < 4294967296" for j
    using total_vertices_take_le [of j ?ms] total_triangles_take_le [of j ?ms] V I by simp_all
  have base: "unat (vertex_base (meshes b ! j)) = total_vertices (take j ?ms)"
    "unat (index_base (meshes b ! j)) = 3 * total_triangles (take j ?ms)"
    if "j < length ?ms" for j
    using flatten_mesh_nth [OF assms(1) that] bound [of j]
    by (simp_all add: mesh_record_def unat_of_nat_u32 unat_three_of_nat_u32)
  have vS: "total_vertices (take (Suc k) ?ms) =
      total_vertices (take k ?ms) + length (mVertices (?ms ! k))"
    and tS: "total_triangles (take (Suc k) ?ms) =
      total_triangles (take k ?ms) + triangles (mFaces (?ms ! k))"
    using k by (rule total_vertices_take_Suc, rule total_triangles_take_Suc)
  have "length (mVertices (?ms ! k)) < 4294967296"
    "3 * triangles (mFaces (?ms ! k)) < 4294967296"
    using bound [of "Suc k"] vS tS by simp_all
  then have cnt: "unat (vertex_count (meshes b ! k)) = length (mVertices (?ms ! k))"
    "unat (index_count (meshes b ! k)) = 3 * triangles (mFaces (?ms ! k))"
    using flatten_mesh_nth [OF assms(1) k]
    by (simp_all add: mesh_record_def unat_of_nat_u32 unat_three_of_nat_u32)
  show ?thesis
  proof (cases "Suc k < length (meshes b)")
    case True
    then have "Suc k < length ?ms" using len(1) by simp
    from base [OF this] base [OF k] cnt vS tS True show ?thesis by simp
  next
    case False
    then have "take (Suc k) ?ms = ?ms" using len(1) by simp
    with base [OF k] cnt vS tS False len(2,3) show ?thesis by simp
  qed
qed

text \<open>Witness: both records of the example scene; the second one is the last.\<close>

theorem mesh_ranges_tile_pools_witness:
  "flatten zero_Vertex example_scene = Inr (example_buffers zero_Vertex) \<and>
   length (vertexes (example_buffers zero_Vertex)) = 7 \<and>
   length (indexes (example_buffers zero_Vertex)) = 9 \<and>
   unat (vertex_base (meshes (example_buffers zero_Vertex) ! 0)) +
     unat (vertex_count (meshes (example_buffers zero_Vertex) ! 0)) =
     unat (vertex_base (meshes (example_buffers zero_Vertex) ! 1)) \<and>
   unat (index_base (meshes (example_buffers zero_Vertex) ! 0)) +
     unat (index_count (meshes (example_buffers zero_Vertex) ! 0)) =
     unat (index_base (meshes (example_buffers zero_Vertex) ! 1)) \<and>
   unat (vertex_base (meshes (example_buffers zero_Vertex) ! 1)) +
     unat (vertex_count (meshes (example_buffers zero_Vertex) ! 1)) = 7 \<and>
   unat (index_base (meshes (example_buffers zero_Vertex) ! 1)) +
     unat (index_count (meshes (example_buffers zero_Vertex) ! 1)) = 9"
proof -
  have h: "length (vertexes (example_buffers zero_Vertex)) < 2 ^ 32"
    "length (indexes (example_buffers zero_Vertex)) < 2 ^ 32"
    and k: "(0::nat) < length (meshes (example_buffers zero_Vertex))"
      "(1::nat) < length (meshes (example_buffers zero_Vertex))"
    and l: "length (vertexes (example_buffers zero_Vertex)) = 7"
      "length (indexes (example_buffers zero_Vertex)) = 9"
      "length (meshes (example_buffers zero_Vertex)) = 2"
    by (simp_all add: example_buffers_def)
  from mesh_ranges_tile_pools [OF flatten_example h k(1)]
    mesh_ranges_tile_pools [OF flatten_example h k(2)] l flatten_example
  show ?thesis by simp
qed

text \<open>
  Counterexample to the claim as stated: three submeshes of \<open>2 ^ 31\<close> vertices each.
  The third record's \<open>vertex_base\<close> wraps to 0, so the first and the third record
  claim the same range of \<open>2 ^ 31\<close> vertices, the second record's end \<open>2 ^ 32\<close> is
  not the third record's base, and the last record's end is not the pool size.
\<close>

theorem mesh_ranges_overlap_counterexample:
  "vertex_base (meshes (projr (flatten zero_Vertex three_half_pools)) ! 2) =
     vertex_base (meshes (projr (flatten zero_Vertex three_half_pools)) ! 0) \<and>
   vertex_count (meshes (projr (flatten zero_Vertex three_half_pools)) ! 2) =
     vertex_count (meshes (projr (flatten zero_Vertex three_half_pools)) ! 0) \<and>
   unat (vertex_count (meshes (projr (flatten zero_Vertex three_half_pools)) ! 0)) = 2147483648 \<and>
   unat (vertex_base (meshes (projr (flatten zero_Vertex three_half_pools)) ! 1)) +
     unat (vertex_count (meshes (projr (flatten zero_Vertex three_half_pools)) ! 1)) \<noteq>
     unat (vertex_base (meshes (projr (flatten zero_Vertex three_half_pools)) ! 2)) \<and>
   unat (vertex_base (meshes (projr (flatten zero_Vertex three_half_pools)) ! 2)) +
     unat (vertex_count (meshes (projr (flatten zero_Vertex three_half_pools)) ! 2)) \<noteq>
     length (vertexes (projr (flatten zero_Vertex three_half_pools)))"
proof -
  let ?b = "projr (flatten zero_Vertex three_half_pools)"
  have fl: "flatten zero_Vertex three_half_pools = Inr ?b"
    by (simp add: flatten_Inr [OF material_ok_half_pools(2)])
  have n: "length (mVertices half_pool_mesh) = 2147483648"
    by (simp add: half_pool_mesh_def)
  have tv: "total_vertices [] = 0" "total_vertices [half_pool_mesh] = 2147483648"
    "total_vertices [half_pool_mesh, half_pool_mesh] = 4294967296"
    by (simp_all add: total_vertices_def n)
  have m0: "meshes ?b ! 0 = mesh_record three_half_pools 0 0 half_pool_mesh"
    using flatten_mesh_nth [OF fl, of 0]
    by (simp add: three_half_pools_def tv total_triangles_def)
  have m1: "meshes ?b ! 1 = mesh_record three_half_pools 2147483648
      (3 * total_triangles [half_pool_mesh]) half_pool_mesh"
    using flatten_mesh_nth [OF fl, of 1]
    by (simp add: three_half_pools_def tv)
  have m2: "meshes ?b ! 2 = mesh_record three_half_pools 4294967296
      (3 * total_triangles [half_pool_mesh, half_pool_mesh]) half_pool_mesh"
    using flatten_mesh_nth [OF fl, of 2]
    by (simp add: three_half_pools_def tv numeral_2_eq_2)
  have V: "length (vertexes ?b) = 6442450944"
    using flatten_lengths(2) [OF fl] by (simp add: total_vertices_half_pools)
  show ?thesis
    unfolding m0 m1 m2 V
    by (simp add: mesh_record_def n unat_of_nat)
qed

subsection \<open>The offset added to face indices\<close>

text \<open>
  C1. The claim says that the three values appended for a triangular face are the
  submesh's \<open>vertex_base\<close> plus the face's local indices. The program adds the size
  of the index pool instead (the \<^verbatim>\<open>index_base\<close> of line 171, commented as the
  number of vertices from previous meshes). In the example scene, mesh B has
  \<open>vertex_base = 4\<close> and \<open>index_base = 6\<close>; its triangle \<open>(0, 1, 2)\<close> is stored as
  \<open>(6, 7, 8)\<close>, not \<open>(4, 5, 6)\<close>, and 7 and 8 are not positions of the pool of 7
  vertices.
\<close>

theorem face_indices_offset_by_index_pool_size:
  "mFaces (mMeshes example_scene ! 1) ! 0 = [0, 1, 2] \<and>
   vertex_base (meshes (projr (flatten zero_Vertex example_scene)) ! 1) = 4 \<and>
   index_base (meshes (projr (flatten zero_Vertex example_scene)) ! 1) = 6 \<and>
   length (vertexes (projr (flatten zero_Vertex example_scene))) = 7 \<and>
   indexes (projr (flatten zero_Vertex example_scene)) = [0, 1, 2, 0, 2, 3, 6, 7, 8]"
  by (simp add: flatten_example) (simp add: example_scene_def example_buffers_def)

subsection \<open>The normal of a vertex\<close>

lemma new_vertexes_normal:
  "k < length ps \<Longrightarrow> normal (new_vertexes vert n ps ! k) = normal (vert (n + k))"
proof (induction ps arbitrary: n k)
  case Nil
  then show ?case by simp
next
  case (Cons p ps)
  show ?case
  proof (cases k)
    case 0
    then show ?thesis by simp
  next
    case (Suc j)
    with Cons.prems have "j < length ps" by simp
    from Cons.IH [OF this, of "Suc n"] Suc show ?thesis by simp
  qed
qed

lemma pool_vertexes_normal:
  "k < total_vertices ms \<Longrightarrow> normal (pool_vertexes vert V ms ! k) = normal (vert (V + k))"
proof (induction ms arbitrary: V k)
  case Nil
  then show ?case by (simp add: total_vertices_def)
next
  case (Cons m ms)
  show ?case
  proof (cases "k < length (mVertices m)")
    case True
    then show ?thesis by (simp add: nth_append new_vertexes_normal)
  next
    case False
    with Cons.prems have "k - length (mVertices m) < total_vertices ms"
      by (simp add: total_vertices_def)
    from Cons.IH [OF this, of "V + length (mVertices m)"] False show ?thesis
      by (simp add: nth_append)
  qed
qed

text \<open>
  The flattener never assigns the \<open>normal\<close> field: vertex record \<open>k\<close> carries, in the
  pool and in the written file, what default initialisation left in the normal of
  its own object.
\<close>

lemma flatten_vertex_normal:
  assumes "flatten vert sc = Inr b" and "k < length (vertexes b)"
  shows "normal (vertexes b ! k) = normal (vert k)"
  using flatten_cases(3) [OF assms(1)] assms(2) pool_vertexes_normal [of k "mMeshes sc" vert 0]
  by (simp add: length_pool_vertexes)

lemma written_vertex_normal:
  assumes "flatten vert sc = Inr b" and "k < length (vertexes b)"
  shows "u32_at big (save_file big b []) (8 + 28 * length (meshes b) + 24 * k + 12) =
           vec_x (normal (vert k)) \<and>
         u32_at big (save_file big b []) (8 + 28 * length (meshes b) + 24 * k + 16) =
           vec_y (normal (vert k)) \<and>
         u32_at big (save_file big b []) (8 + 28 * length (meshes b) + 24 * k + 20) =
           vec_z (normal (vert k))"
proof -
  let ?M = "length (meshes b)"
  have nrm: "normal (vertexes b ! k) = normal (vert k)"
    using assms by (rule flatten_vertex_normal)
  have off: "8 + 28 * ?M + 24 * k + 12 = 4 * (2 + 7 * ?M + 6 * k + 3)"
    "8 + 28 * ?M + 24 * k + 16 = 4 * (2 + 7 * ?M + 6 * k + 4)"
    "8 + 28 * ?M + 24 * k + 20 = 4 * (2 + 7 * ?M + 6 * k + 5)"
    by simp_all
  have in_file: "2 + 7 * ?M + 6 * k + j < length (file_fields b)" if "j < 6" for j
    using that assms(2) by (simp add: length_file_fields)
  have fld: "u32_at big (save_file big b []) (4 * (2 + 7 * ?M + 6 * k + j)) =
      vertex_fields (vertexes b ! k) ! j" if "j < 6" for j
    using u32_at_fields [OF in_file [OF that], of big]
      file_fields_vertex_field [OF assms(2) that]
    by (simp add: save_file_eq)
  have "u32_at big (save_file big b []) (4 * (2 + 7 * ?M + 6 * k + 3)) = vec_x (normal (vert k))"
    "u32_at big (save_file big b []) (4 * (2 + 7 * ?M + 6 * k + 4)) = vec_y (normal (vert k))"
    "u32_at big (save_file big b []) (4 * (2 + 7 * ?M + 6 * k + 5)) = vec_z (normal (vert k))"
    using fld [of 3] fld [of 4] fld [of 5] nrm
    by (simp_all add: vertex_fields_def vec3_fields_def)
  then show ?thesis unfolding off by simp
qed

text \<open>
  C5. The claim says that the normal of every vertex record written to the file is
  zero-filled. The program fetches the address of the submesh's normal beside that
  of the position (lines 153 and 154), stores the position (lines 163 to 165) and
  never assigns \<^verbatim>\<open>vert.normal\<close>, so the file carries whatever the fresh object of
  each iteration held. Where default initialisation leaves the memory as it was, the
  first vertex record of the example scene carries \<open>1.0f\<close> in the first component
  of its normal, at byte offset 76 of the file, and the normals of the first vertex
  of mesh A and of the first vertex of mesh B differ.
\<close>

theorem normal_written_uninitialised:
  "normal (vertexes (projr (flatten stale_Vertex example_scene)) ! 0) = Vec3 0x3F800000 0 0 \<and>
   normal (vertexes (projr (flatten stale_Vertex example_scene)) ! 4) = Vec3 0x3F800000 4 0 \<and>
   u32_at False (save_file False (projr (flatten stale_Vertex example_scene)) []) 76 =
     0x3F800000"
proof -
  let ?b = "projr (flatten stale_Vertex example_scene)"
  have fl: "flatten stale_Vertex example_scene = Inr ?b"
    by (simp add: flatten_example)
  have h: "(0::nat) < length (vertexes ?b)" "(4::nat) < length (vertexes ?b)"
    and l: "length (meshes ?b) = 2"
    by (simp_all add: flatten_example example_buffers_def)
  have n: "normal (stale_Vertex 0) = Vec3 0x3F800000 0 0"
    "normal (stale_Vertex 4) = Vec3 0x3F800000 4 0"
    by (simp_all add: stale_Vertex_def)
  from flatten_vertex_normal [OF fl h(1)] flatten_vertex_normal [OF fl h(2)]
    written_vertex_normal [OF fl h(1), of False] l n
  show ?thesis by simp
qed

section \<open>Properties of the written file\<close>

text \<open>
  C2, amended. For every scene with \<open>M\<close> meshes, \<open>V\<close> vertices and \<open>I\<close> indices, zero
  included, the writer emits, in this order and nothing else: a u32 count, the \<open>M\<close>
  mesh records (colour r, g, b, then \<open>vertex_base\<close>, \<open>vertex_count\<close>, \<open>index_base\<close>,
  \<open>index_count\<close>), a u32 count, the \<open>V\<close> vertex records (position, then normal), a
  u32 count and the \<open>I\<close> indices. Each count stands immediately before the records
  it counts and holds their number modulo \<open>2 ^ 32\<close>: it equals \<open>M\<close>, \<open>V\<close> or \<open>I\<close>
  when that number is below \<open>2 ^ 32\<close>.
\<close>

theorem writer_emits_layout:
  assumes "flatten vert sc = Inr b"
  shows "save_file big b [] =
           fields_bytes big
             ([of_nat (length (meshes b))] @ concat (map mesh_fields (meshes b)) @
              [of_nat (length (vertexes b))] @ concat (map vertex_fields (vertexes b)) @
              [of_nat (length (indexes b))] @ indexes b) \<and>
         length (meshes b) = length (mMeshes sc) \<and>
         length (vertexes b) = total_vertices (mMeshes sc) \<and>
         length (indexes b) = 3 * total_triangles (mMeshes sc) \<and>
         (length (meshes b) < 2 ^ 32 \<longrightarrow>
            unat (of_nat (length (meshes b)) :: 32 word) = length (meshes b)) \<and>
         (length (vertexes b) < 2 ^ 32 \<longrightarrow>
            unat (of_nat (length (vertexes b)) :: 32 word) = length (vertexes b)) \<and>
         (length (indexes b) < 2 ^ 32 \<longrightarrow>
            unat (of_nat (length (indexes b)) :: 32 word) = length (indexes b))"
proof -
  have a: "save_file big b [] =
           fields_bytes big
             ([of_nat (length (meshes b))] @ concat (map mesh_fields (meshes b)) @
              [of_nat (length (vertexes b))] @ concat (map vertex_fields (vertexes b)) @
              [of_nat (length (indexes b))] @ indexes b)"
    by (simp add: save_file_eq file_fields_def)
  have u: "n < 2 ^ 32 \<longrightarrow> unat (of_nat n :: 32 word) = n" for n :: nat
    using unat_of_nat_u32 [of n] by simp
  note len = flatten_lengths [OF assms]
  show ?thesis
    using a len u [of "length (meshes b)"] u [of "length (vertexes b)"]
      u [of "length (indexes b)"]
    by blast
qed

text \<open>Witness: the example scene, and the scene with no mesh, whose file is the
  three zero counts.\<close>

theorem writer_emits_layout_witness:
  "flatten zero_Vertex example_scene = Inr (example_buffers zero_Vertex) \<and>
   save_file False (example_buffers zero_Vertex) [] =
     fields_bytes False
       ([2] @ concat (map mesh_fields (meshes (example_buffers zero_Vertex))) @
        [7] @ concat (map vertex_fields (vertexes (example_buffers zero_Vertex))) @
        [9] @ [0, 1, 2, 0, 2, 3, 6, 7, 8]) \<and>
   length (meshes (example_buffers zero_Vertex)) = 2 \<and>
   length (vertexes (example_buffers zero_Vertex)) = 7 \<and>
   length (indexes (example_buffers zero_Vertex)) = 9 \<and>
   flatten zero_Vertex empty_scene = Inr \<lparr>meshes = [], vertexes = [], indexes = []\<rparr> \<and>
   save_file False \<lparr>meshes = [], vertexes = [], indexes = []\<rparr> [] =
     [0, 0, 0, 0, 0, 0, 0, 0, 0, 0, 0, 0]"
proof -
  have l: "length (meshes (example_buffers zero_Vertex)) = 2"
    "length (vertexes (example_buffers zero_Vertex)) = 7"
    "length (indexes (example_buffers zero_Vertex)) = 9"
    "indexes (example_buffers zero_Vertex) = [0, 1, 2, 0, 2, 3, 6, 7, 8]"
    by (simp_all add: example_buffers_def)
  have e: "flatten zero_Vertex empty_scene = Inr \<lparr>meshes = [], vertexes = [], indexes = []\<rparr>"
    by (simp add: flatten_def empty_scene_def)
  have z: "object_bytes False 0 = [0, 0, 0, 0]"
    by (simp add: object_bytes_def)
  from writer_emits_layout [OF flatten_example [of zero_Vertex], of False]
    writer_emits_layout [OF e, of False] l e z flatten_example [of zero_Vertex]
  show ?thesis by simp
qed

text \<open>
  Counterexample to the claim as stated: two submeshes of \<open>2 ^ 31\<close> vertices each.
  The pool holds \<open>V = 2 ^ 32\<close> vertex records, all of which are written, and the
  count emitted before them, at byte offset \<open>4 + 28 * 2\<close>, is 0.
\<close>

theorem vertex_count_field_wraps_counterexample:
  "length (meshes (projr (flatten zero_Vertex two_half_pools))) = 2 \<and>
   length (vertexes (projr (flatten zero_Vertex two_half_pools))) = 4294967296 \<and>
   u32_at False (save_file False (projr (flatten zero_Vertex two_half_pools)) []) (4 + 28 * 2)
     = 0"
proof -
  let ?b = "projr (flatten zero_Vertex two_half_pools)"
  have fl: "flatten zero_Vertex two_half_pools = Inr ?b"
    by (simp add: flatten_Inr [OF material_ok_half_pools(1)])
  have M: "length (meshes ?b) = 2"
    using flatten_lengths(1) [OF fl] by (simp add: two_half_pools_def)
  have V: "length (vertexes ?b) = 4294967296"
    using flatten_lengths(2) [OF fl] by (simp add: total_vertices_half_pools)
  have in_file: "15 < length (file_fields ?b)"
    by (simp add: length_file_fields M)
  have "file_fields ?b ! 15 = 0"
    using file_fields_vertex_count [of ?b] by (simp add: M V)
  with u32_at_fields [OF in_file, of False]
  have "u32_at False (save_file False ?b []) (4 + 28 * 2) = 0"
    by (simp add: save_file_eq)
  with M V show ?thesis by simp
qed

text \<open>
  C4, amended. For every scene whose total vertex count and total index count are
  below \<open>2 ^ 32\<close>, reading the written bytes back by the documented layout returns
  the flattener's buffers exactly: the same number of mesh records and the same
  records, every vertex with the same position (and normal) bit patterns, and every
  index value.
\<close>

theorem read_back_is_lossless:
  assumes "flatten vert sc = Inr b"
    and "length (mMeshes sc) < 2 ^ 32"
    and "length (vertexes b) < 2 ^ 32"
    and "length (indexes b) < 2 ^ 32"
  shows "read_file big (save_file big b []) = Some b"
proof -
  have "length (meshes b) < 4294967296"
    using flatten_lengths(1) [OF assms(1)] assms(2) by simp
  then show ?thesis using assms(3,4) by (simp add: read_file_save_file)
qed

text \<open>Witness: the example scene, on a little-endian and on a big-endian host.\<close>

theorem read_back_is_lossless_witness:
  "flatten zero_Vertex example_scene = Inr (example_buffers zero_Vertex) \<and>
   length (mMeshes example_scene) = 2 \<and>
   length (vertexes (example_buffers zero_Vertex)) = 7 \<and>
   length (indexes (example_buffers zero_Vertex)) = 9 \<and>
   read_file False (save_file False (example_buffers zero_Vertex) []) =
     Some (example_buffers zero_Vertex) \<and>
   read_file True (save_file True (example_buffers zero_Vertex) []) =
     Some (example_buffers zero_Vertex)"
proof -
  have h: "length (mMeshes example_scene) < 2 ^ 32"
    "length (vertexes (example_buffers zero_Vertex)) < 2 ^ 32"
    "length (indexes (example_buffers zero_Vertex)) < 2 ^ 32"
    and l: "length (mMeshes example_scene) = 2"
    "length (vertexes (example_buffers zero_Vertex)) = 7"
    "length (indexes (example_buffers zero_Vertex)) = 9"
    by (simp_all add: example_buffers_def example_scene_def)
  from read_back_is_lossless [OF flatten_example h, of False]
    read_back_is_lossless [OF flatten_example h, of True] l flatten_example [of zero_Vertex]
  show ?thesis by simp
qed

text \<open>
  Counterexample to the claim as stated: for the two submeshes of \<open>2 ^ 31\<close> vertices
  each, the count in the file does not tell the \<open>2 ^ 32\<close> vertex records that
  follow it, and no reader of the layout returns their positions.
\<close>

theorem read_back_loses_vertices_counterexample:
  "map position (vertexes (read_back False
       (save_file False (projr (flatten zero_Vertex two_half_pools)) []))) \<noteq>
   map position (vertexes (projr (flatten zero_Vertex two_half_pools)))"
proof -
  let ?b = "projr (flatten zero_Vertex two_half_pools)"
  have fl: "flatten zero_Vertex two_half_pools = Inr ?b"
    by (simp add: flatten_Inr [OF material_ok_half_pools(1)])
  have V: "length (vertexes ?b) = 4294967296"
    using flatten_lengths(2) [OF fl] by (simp add: total_vertices_half_pools)
  have "length (vertexes (read_back False (save_file False ?b []))) < 4294967296"
    by (rule read_back_vertexes_length)
  with V have "length (map position (vertexes (read_back False (save_file False ?b [])))) \<noteq>
      length (map position (vertexes ?b))"
    by simp
  then show ?thesis by metis
qed

section \<open>Early exits of the program\<close>

text \<open>
  C9. An invocation without \<open>--source\<close> or without \<open>--out\<close> prints a diagnostic (the
  usage text under \<open>--help\<close>, otherwise a line for each missing option) and exits
  with status 0; the import service is not called and nothing is written. An
  invocation whose import returns the null scene prints the failure line with the
  text of \<^verbatim>\<open>aiGetErrorString()\<close> and exits with status 0, nothing written.
\<close>

theorem early_exits_return_zero:
  "(vm_source vm = None \<or> vm_out vm = None \<longrightarrow>
      (\<exists>r. main_prog big vert ReadFile aiGetErrorString vm = Inr r \<and>
           exit_status r = 0 \<and> imported r = None \<and> written r = [] \<and> stdout r \<noteq> [] \<and>
           stdout r =
             (if vm_help vm then [Usage, Text [CHR 0x0A]]
              else (if vm_source vm = None then [source_not_set] else []) @
                   (if vm_out vm = None then [output_not_set] else [])))) \<and>
   (\<not> vm_help vm \<and> vm_source vm = Some file_path \<and> vm_out vm = Some out_path \<and>
    ReadFile file_path = None \<longrightarrow>
      main_prog big vert ReadFile aiGetErrorString vm =
        Inr \<lparr>stdout = [Text ''Failed to load model. Assimp error: '',
                        Text aiGetErrorString, Endl],
             opened = Some out_path, imported = Some file_path,
             written = [], exit_status = 0\<rparr>)"
proof (intro conjI impI)
  assume "vm_source vm = None \<or> vm_out vm = None"
  then show "\<exists>r. main_prog big vert ReadFile aiGetErrorString vm = Inr r \<and>
           exit_status r = 0 \<and> imported r = None \<and> written r = [] \<and> stdout r \<noteq> [] \<and>
           stdout r =
             (if vm_help vm then [Usage, Text [CHR 0x0A]]
              else (if vm_source vm = None then [source_not_set] else []) @
                   (if vm_out vm = None then [output_not_set] else []))"
    by (cases "vm_source vm"; cases "vm_out vm") (auto simp: main_prog_def Let_def)
next
  assume "\<not> vm_help vm \<and> vm_source vm = Some file_path \<and> vm_out vm = Some out_path \<and>
    ReadFile file_path = None"
  then show "main_prog big vert ReadFile aiGetErrorString vm =
        Inr \<lparr>stdout = [Text ''Failed to load model. Assimp error: '',
                        Text aiGetErrorString, Endl],
             opened = Some out_path, imported = Some file_path,
             written = [], exit_status = 0\<rparr>"
    by (simp add: main_prog_def Let_def)
qed

text \<open>Witness: a command line without \<open>--source\<close>, and a complete one whose import
  fails with the error text \<open>no such file\<close>.\<close>

theorem early_exits_return_zero_witness:
  "vm_source no_source = None \<and>
   main_prog False zero_Vertex failing_ReadFile ''no such file'' no_source =
     Inr \<lparr>stdout = [source_not_set], opened = Some ''out.bin'', imported = None,
          written = [], exit_status = 0\<rparr> \<and>
   \<not> vm_help both_set \<and> failing_ReadFile ''model.obj'' = None \<and>
   main_prog False zero_Vertex failing_ReadFile ''no such file'' both_set =
     Inr \<lparr>stdout = [Text ''Failed to load model. Assimp error: '', Text ''no such file'', Endl],
          opened = Some ''out.bin'', imported = Some ''model.obj'',
          written = [], exit_status = 0\<rparr>"
proof -
  have a: "vm_source no_source = None \<or> vm_out no_source = None"
    and a': "vm_source no_source = None" "vm_out no_source = Some ''out.bin''"
      "\<not> vm_help no_source"
    by (simp_all add: no_source_def)
  have b: "\<not> vm_help both_set \<and> vm_source both_set = Some ''model.obj'' \<and>
      vm_out both_set = Some ''out.bin'' \<and> failing_ReadFile ''model.obj'' = None"
    by (simp add: both_set_def failing_ReadFile_def)
  have "\<exists>r. main_prog False zero_Vertex failing_ReadFile ''no such file'' no_source = Inr r \<and>
      exit_status r = 0 \<and> imported r = None \<and> written r = [] \<and> stdout r \<noteq> [] \<and>
      stdout r = [source_not_set]"
    using early_exits_return_zero
      [of no_source False zero_Vertex failing_ReadFile "''no such file''"] a a'
    by simp
  then obtain r where r: "main_prog False zero_Vertex failing_ReadFile ''no such file'' no_source = Inr r"
    "exit_status r = 0" "imported r = None" "written r = []" "stdout r = [source_not_set]"
    by blast
  have "opened r = Some ''out.bin''"
    using r(1) by (auto simp: main_prog_def no_source_def Let_def)
  with r have first: "main_prog False zero_Vertex failing_ReadFile ''no such file'' no_source =
     Inr \<lparr>stdout = [source_not_set], opened = Some ''out.bin'', imported = None,
          written = [], exit_status = 0\<rparr>"
    by simp
  from early_exits_return_zero
    [of both_set False zero_Vertex failing_ReadFile "''no such file''" "''model.obj''" "''out.bin''"] b
  have "main_prog False zero_Vertex failing_ReadFile ''no such file'' both_set =
     Inr \<lparr>stdout = [Text ''Failed to load model. Assimp error: '', Text ''no such file'', Endl],
          opened = Some ''out.bin'', imported = Some ''model.obj'',
          written = [], exit_status = 0\<rparr>"
    by simp
  with first a'(1) b show ?thesis by simp
qed

section \<open>Further properties of the pipeline\<close>

lemma map_position_new_vertexes: "map position (new_vertexes vert n ps) = ps"
  by (induction ps arbitrary: n) simp_all

lemma map_position_pool_vertexes:
  "map position (pool_vertexes vert V ms) = concat (map mVertices ms)"
  by (induction ms arbitrary: V) (simp_all add: map_position_new_vertexes)

text \<open>
  Positions are copied verbatim, submesh after submesh, each in its original order:
  the positions of the vertex pool are the concatenation of the submeshes' vertex
  arrays.
\<close>

theorem positions_copied_in_order:
  assumes "flatten vert sc = Inr b"
  shows "map position (vertexes b) = concat (map mVertices (mMeshes sc))"
  using flatten_cases(3) [OF assms] by (simp add: map_position_pool_vertexes)

theorem positions_copied_in_order_witness:
  "flatten zero_Vertex example_scene = Inr (example_buffers zero_Vertex) \<and>
   map position (vertexes (example_buffers zero_Vertex)) =
     concat (map mVertices (mMeshes example_scene))"
  using positions_copied_in_order [OF flatten_example [of zero_Vertex]]
    flatten_example [of zero_Vertex]
  by simp

text \<open>
  A submesh whose material has a diffuse colour gets that colour in its mesh record.
\<close>

theorem diffuse_colour_copied:
  assumes "list_all (\<lambda>m. unat (mMaterialIndex m) < length (mMaterials sc)) (mMeshes sc)"
    and "k < length (mMeshes sc)"
    and "color_diffuse (mMaterials sc ! unat (mMaterialIndex (mMeshes sc ! k))) = Some c"
  shows "\<exists>b. flatten vert sc = Inr b \<and> color (meshes b ! k) = c"
proof -
  have ok: "list_all (material_ok sc) (mMeshes sc)"
    using assms(1) by (simp add: material_ok_def [abs_def])
  have "color (records sc 0 0 (mMeshes sc) ! k) = c"
    using assms(2,3) by (simp add: records_nth mesh_record_def Get_color_diffuse_def)
  with flatten_Inr [OF ok, of vert] show ?thesis by simp
qed

theorem diffuse_colour_copied_witness:
  "color_diffuse (mMaterials example_scene ! unat (mMaterialIndex (mMeshes example_scene ! 0)))
     = Some (Vec3 0x3F800000 0 0) \<and>
   (\<exists>b. flatten zero_Vertex example_scene = Inr b \<and>
        color (meshes b ! 0) = Vec3 0x3F800000 0 0)"
proof -
  have h: "list_all (\<lambda>m. unat (mMaterialIndex m) < length (mMaterials example_scene))
     (mMeshes example_scene)"
    "(0::nat) < length (mMeshes example_scene)"
    "color_diffuse (mMaterials example_scene !
        unat (mMaterialIndex (mMeshes example_scene ! 0))) = Some (Vec3 0x3F800000 0 0)"
    by (simp_all add: example_scene_def)
  from diffuse_colour_copied [OF h, of zero_Vertex] h(3) show ?thesis by simp
qed

lemma face_indexes_nth:
  assumes "j < length fs" and "length (fs ! j) = 3" and "i < 3"
  shows "face_indexes ib fs ! (3 * triangles (take j fs) + i) = ib + fs ! j ! i"
  using assms(1,2)
proof (induction fs arbitrary: j)
  case Nil
  then show ?case by simp
next
  case (Cons f fs)
  show ?case
  proof (cases j)
    case 0
    from assms(3) consider "i = 0" | "i = 1" | "i = 2" by linarith
    then show ?thesis
      using 0 Cons.prems by cases (simp_all add: triangles_def)
  next
    case (Suc j')
    with Cons.prems have "j' < length fs" "length (fs ! j') = 3" by simp_all
    from Cons.IH [OF this] Suc show ?thesis
      by (simp add: triangles_def nth_append)
  qed
qed

lemma pool_indexes_nth:
  assumes "k < length ms" and "n < 3 * triangles (mFaces (ms ! k))"
  shows "pool_indexes I ms ! (3 * total_triangles (take k ms) + n) =
         face_indexes (of_nat (I + 3 * total_triangles (take k ms))) (mFaces (ms ! k)) ! n"
  using assms
proof (induction ms arbitrary: I k)
  case Nil
  then show ?case by simp
next
  case (Cons m ms)
  show ?case
  proof (cases k)
    case 0
    with Cons.prems show ?thesis
      by (simp add: total_triangles_def nth_append length_face_indexes)
  next
    case (Suc k')
    with Cons.prems have "k' < length ms" "n < 3 * triangles (mFaces (ms ! k'))" by simp_all
    from Cons.IH [OF this, of "I + 3 * triangles (mFaces m)"] Suc show ?thesis
      by (simp add: total_triangles_def nth_append length_face_indexes algebra_simps)
  qed
qed

lemma triangles_take_less:
  assumes "j < length fs" and "length (fs ! j) = 3"
  shows "triangles (take j fs) < triangles fs"
proof -
  have "fs = take j fs @ fs ! j # drop (Suc j) fs"
    using assms(1) by (rule id_take_nth_drop)
  then have "triangles fs = triangles (take j fs @ fs ! j # drop (Suc j) fs)" by simp
  also have "\<dots> = triangles (take j fs) + 1 + triangles (drop (Suc j) fs)"
    using assms(2) by (simp add: triangles_def)
  finally show ?thesis by simp
qed

text \<open>
  What is stored for a triangular face. Face \<open>j\<close> of submesh \<open>k\<close>, with three vertex
  references, is stored behind the indices of the earlier submeshes and of the
  earlier triangles of its own submesh; each of its three entries is the face's own
  index plus the 32-bit size of the index pool at the start of the submesh, which
  is the record's \<open>index_base\<close>. The sum wraps at \<open>2 ^ 32\<close>.
\<close>

theorem triangle_stored_with_index_base:
  assumes "flatten vert sc = Inr b"
    and "k < length (mMeshes sc)"
    and "j < length (mFaces (mMeshes sc ! k))"
    and "length (mFaces (mMeshes sc ! k) ! j) = 3"
    and "i < 3"
  shows "indexes b ! (3 * total_triangles (take k (mMeshes sc)) +
                      3 * triangles (take j (mFaces (mMeshes sc ! k))) + i) =
           index_base (meshes b ! k) + mFaces (mMeshes sc ! k) ! j ! i \<and>
         index_base (meshes b ! k) = of_nat (3 * total_triangles (take k (mMeshes sc)))"
proof -
  let ?ms = "mMeshes sc"
  let ?fs = "mFaces (?ms ! k)"
  let ?n = "3 * triangles (take j ?fs) + i"
  have ib: "index_base (meshes b ! k) = of_nat (3 * total_triangles (take k ?ms))"
    using flatten_mesh_nth [OF assms(1,2)] by (simp add: mesh_record_def)
  have "triangles (take j ?fs) < triangles ?fs"
    using assms(3,4) by (rule triangles_take_less)
  then have n: "?n < 3 * triangles ?fs" using assms(5) by simp
  have "indexes b ! (3 * total_triangles (take k ?ms) + ?n) =
        face_indexes (of_nat (0 + 3 * total_triangles (take k ?ms))) ?fs ! ?n"
    using flatten_cases(4) [OF assms(1)] pool_indexes_nth [OF assms(2) n, of 0] by simp
  also have "\<dots> = of_nat (0 + 3 * total_triangles (take k ?ms)) + ?fs ! j ! i"
    using assms(3-5) by (rule face_indexes_nth)
  finally show ?thesis using ib by (simp add: add.assoc)
qed

text \<open>Witness: the triangle of mesh B in the example scene, stored at positions 6 to
  8 of the index pool with the offset 6.\<close>

theorem triangle_stored_with_index_base_witness:
  "flatten zero_Vertex example_scene = Inr (example_buffers zero_Vertex) \<and>
   length (mFaces (mMeshes example_scene ! 1) ! 0) = 3 \<and>
   indexes (example_buffers zero_Vertex) ! (6 + 2) =
     index_base (meshes (example_buffers zero_Vertex) ! 1) +
     mFaces (mMeshes example_scene ! 1) ! 0 ! 2 \<and>
   index_base (meshes (example_buffers zero_Vertex) ! 1) = 6"
proof -
  have h: "(1::nat) < length (mMeshes example_scene)"
    "(0::nat) < length (mFaces (mMeshes example_scene ! 1))"
    "length (mFaces (mMeshes example_scene ! 1) ! 0) = 3"
    "(2::nat) < 3"
    and t: "3 * total_triangles (take 1 (mMeshes example_scene)) = 6"
      "triangles (take 0 (mFaces (mMeshes example_scene ! 1))) = 0"
    by (simp_all add: example_scene_def total_triangles_def triangles_def)
  from triangle_stored_with_index_base [OF flatten_example [of zero_Vertex] h] t h(3)
    flatten_example [of zero_Vertex]
  show ?thesis by simp
qed

text \<open>
  The record's \<open>vertex_count\<close> is the submesh's vertex count (which fits 32 bits by
  the type of \<^verbatim>\<open>mNumVertices\<close>).
\<close>

theorem vertex_count_is_submesh_count:
  assumes "flatten vert sc = Inr b"
    and "k < length (mMeshes sc)"
    and "length (mVertices (mMeshes sc ! k)) < 2 ^ 32"
  shows "unat (vertex_count (meshes b ! k)) = length (mVertices (mMeshes sc ! k))"
  using flatten_mesh_nth [OF assms(1,2)] assms(3)
  by (simp add: mesh_record_def unat_of_nat_u32)

theorem vertex_count_is_submesh_count_witness:
  "flatten zero_Vertex example_scene = Inr (example_buffers zero_Vertex) \<and>
   length (mVertices (mMeshes example_scene ! 1)) = 3 \<and>
   unat (vertex_count (meshes (example_buffers zero_Vertex) ! 1)) = 3"
proof -
  have h: "(1::nat) < length (mMeshes example_scene)"
    "length (mVertices (mMeshes example_scene ! 1)) < 2 ^ 32"
    and l: "length (mVertices (mMeshes example_scene ! 1)) = 3"
    by (simp_all add: example_scene_def)
  from vertex_count_is_submesh_count [OF flatten_example [of zero_Vertex] h] l
    flatten_example [of zero_Vertex]
  show ?thesis by simp
qed

text \<open>
  The file has no header and no padding: its size is 4 bytes for each of the three
  counts, 28 for each mesh record, 24 for each vertex record and 4 for each index.
\<close>

theorem file_size:
  "length (save_file big b []) =
     4 * 3 + 28 * length (meshes b) + 24 * length (vertexes b) + 4 * length (indexes b)"
  by (simp add: save_file_eq length_file_fields)

text \<open>
  With \<open>--help\<close> the program prints the usage text and exits with status 0; it opens
  no file, calls no import and writes nothing, whatever else is on the command line.
\<close>

theorem help_prints_usage:
  assumes "vm_help vm"
  shows "main_prog big vert ReadFile aiGetErrorString vm =
     Inr \<lparr>stdout = [Usage, Text [CHR 0x0A]], opened = None, imported = None,
          written = [], exit_status = 0\<rparr>"
  using assms by (simp add: main_prog_def)

theorem help_prints_usage_witness:
  "vm_help (both_set\<lparr>vm_help := True\<rparr>) \<and>
   main_prog False zero_Vertex failing_ReadFile [] (both_set\<lparr>vm_help := True\<rparr>) =
     Inr \<lparr>stdout = [Usage, Text [CHR 0x0A]], opened = None, imported = None,
          written = [], exit_status = 0\<rparr>"
proof -
  have h: "vm_help (both_set\<lparr>vm_help := True\<rparr>)" by simp
  from help_prints_usage [OF h, of False zero_Vertex failing_ReadFile "[]"] h
  show ?thesis by simp
qed

text \<open>
  A complete command line whose import succeeds, on a scene whose material indices
  are valid: the program writes the flattened scene and exits with status 0.
\<close>

theorem successful_run_writes_file:
  assumes "\<not> vm_help vm" and "vm_source vm = Some file_path" and "vm_out vm = Some out_path"
    and "ReadFile file_path = Some sc"
    and "list_all (\<lambda>m. unat (mMaterialIndex m) < length (mMaterials sc)) (mMeshes sc)"
  shows "\<exists>b. flatten vert sc = Inr b \<and>
           main_prog big vert ReadFile aiGetErrorString vm =
             Inr \<lparr>stdout = print_info b, opened = Some out_path, imported = Some file_path,
                  written = save_file big b [], exit_status = 0\<rparr>"
proof -
  have "list_all (material_ok sc) (mMeshes sc)"
    using assms(5) by (simp add: material_ok_def [abs_def])
  from flatten_Inr [OF this, of vert] obtain b where b: "flatten vert sc = Inr b" by blast
  then show ?thesis using assms(1-4) by (simp add: main_prog_def)
qed

theorem successful_run_writes_file_witness:
  "\<not> vm_help both_set \<and> vm_source both_set = Some ''model.obj'' \<and>
   (\<exists>b. flatten zero_Vertex example_scene = Inr b \<and>
        main_prog False zero_Vertex (\<lambda>file_path. Some example_scene) [] both_set =
          Inr \<lparr>stdout = print_info b, opened = Some ''out.bin'', imported = Some ''model.obj'',
               written = save_file False b [], exit_status = 0\<rparr>)"
proof -
  have h: "\<not> vm_help both_set" "vm_source both_set = Some ''model.obj''"
    "vm_out both_set = Some ''out.bin''"
    "(\<lambda>file_path. Some example_scene) ''model.obj'' = Some example_scene"
    "list_all (\<lambda>m. unat (mMaterialIndex m) < length (mMaterials example_scene))
       (mMeshes example_scene)"
    by (simp_all add: both_set_def example_scene_def)
  from successful_run_writes_file [OF h, of zero_Vertex False "[]"] h(1,2)
  show ?thesis by simp
qed

end
